theory Spec2Isabelle
  imports Main "HOL-Library.Char_ord" "HOL-Library.List_Lexorder" "HOL-Library.Sublist"
begin

section \<open>JavaScript values\<close>

text \<open>
  The values the scripts read out of parsed JSON. \<open>JUndefined\<close> is what a
  missing property reads as. Numbers are the integers; fractions are outside this model.
  \<open>JObj\<close> lists the own properties of an object, each key once.
\<close>

datatype jsval =
    JUndefined
  | JNull
  | JBool bool
  | JNum int
  | JStr string
  | JArr "jsval list"
  | JObj "(string \<times> jsval) list"

text \<open>The one exception the scripts can raise on their own.\<close>

datatype error = TypeError

text \<open>Truthiness, as \<open>if (v)\<close>, \<open>v ? a : b\<close>, \<open>v || w\<close> and
  \<open>filter(m => v)\<close> test it.\<close>

fun truthy :: "jsval \<Rightarrow> bool" where
  "truthy JUndefined = False"
| "truthy JNull = False"
| "truthy (JBool b) = b"
| "truthy (JNum n) = (n \<noteq> 0)"
| "truthy (JStr s) = (s \<noteq> [])"
| "truthy (JArr xs) = True"
| "truthy (JObj kvs) = True"

text \<open>\<open>a || b\<close>\<close>

definition js_or :: "jsval \<Rightarrow> jsval \<Rightarrow> jsval" where
  "js_or a b = (if truthy a then a else b)"

text \<open>
  \<open>v?.k\<close> and \<open>v.k\<close> for the property names the scripts read in a payload
  (\<open>type\<close>, \<open>data\<close>, \<open>soul_hash\<close>, \<open>name\<close>, \<open>framework\<close>, \<open>tool\<close>,
  \<open>status\<close>): an object gives its own property, every other value gives
  \<open>undefined\<close>, since no prototype defines these names. For the name \<open>match\<close> a
  string gives the method of its prototype, a function, which is no JSON value: it reads
  as \<open>JUndefined\<close> here, and like \<open>undefined\<close> it is neither \<open>true\<close> nor
  \<open>false\<close>.
\<close>

fun opt_prop :: "jsval \<Rightarrow> string \<Rightarrow> jsval" where
  "opt_prop (JObj kvs) k = (case map_of kvs k of None \<Rightarrow> JUndefined | Some v \<Rightarrow> v)"
| "opt_prop v k = JUndefined"

text \<open>
  \<open>data?.match === false\<close>. Only an object whose own property \<open>match\<close> is the
  boolean \<open>false\<close> passes: \<open>undefined\<close> and \<open>null\<close> stop the optional chain, a
  string resolves \<open>match\<close> to the method of its prototype (a function, not \<open>false\<close>),
  and numbers, booleans and arrays have no such property.
\<close>

fun match_is_false :: "jsval \<Rightarrow> bool" where
  "match_is_false (JObj kvs) = (map_of kvs ''match'' = Some (JBool False))"
| "match_is_false v = False"

subsection \<open>Rendering inside template strings\<close>

text \<open>
  The decimal digits of an integer. This is what JavaScript prints for a number of
  magnitude up to 2^53; above that it prints the shortest digits that read back as the
  same double, which is outside this model.
\<close>

fun show_nat :: "nat \<Rightarrow> string" where
  "show_nat n =
     (if n < 10 then [''0123456789'' ! n]
      else show_nat (n div 10) @ [''0123456789'' ! (n mod 10)])"

declare show_nat.simps [simp del]

definition show_int :: "int \<Rightarrow> string" where
  "show_int i = (if i < 0 then ''-'' @ show_nat (nat (- i)) else show_nat (nat i))"

fun intercalate :: "string \<Rightarrow> string list \<Rightarrow> string" where
  "intercalate sep [] = []"
| "intercalate sep [x] = x"
| "intercalate sep (x # y # ys) = x @ sep @ intercalate sep (y # ys)"

text \<open>All the results, or \<open>None\<close> when one of the conversions threw.\<close>

fun all_some :: "'a option list \<Rightarrow> 'a list option" where
  "all_some [] = Some []"
| "all_some (None # xs) = None"
| "all_some (Some x # xs) = map_option ((#) x) (all_some xs)"

text \<open>
  \<open>`${v}`\<close>: the string conversion of a value, \<open>None\<close> when it throws a
  \<open>TypeError\<close>. An object is converted by its \<open>toString\<close>: the one of the prototype
  gives \<open>[object Object]\<close>, but an own property \<open>toString\<close> of a parsed object is
  never a function, and then neither it nor \<open>valueOf\<close> yields a primitive. An array is
  converted by \<open>join\<close>, which renders \<open>null\<close> and \<open>undefined\<close> elements as the
  empty string and converts the others in turn.
\<close>

fun js_to_string :: "jsval \<Rightarrow> string option" where
  "js_to_string JUndefined = Some ''undefined''"
| "js_to_string JNull = Some ''null''"
| "js_to_string (JBool b) = Some (if b then ''true'' else ''false'')"
| "js_to_string (JNum n) = Some (show_int n)"
| "js_to_string (JStr s) = Some s"
| "js_to_string (JArr xs) =
     map_option (intercalate '','')
       (all_some
          (map (\<lambda>x. if x = JNull \<or> x = JUndefined then Some [] else js_to_string x) xs))"
| "js_to_string (JObj kvs) =
     (if map_of kvs ''toString'' = None then Some ''[object Object]'' else None)"

section \<open>val-verify.js\<close>

subsection \<open>The messages of a topic\<close>

text \<open>
  One element of the array \<open>messages\<close> that \<open>fetchAllMessages\<close> builds and that
  \<open>verify\<close> and \<open>displaySummary\<close> read, seen through the properties they read.
  \<open>seq\<close> is the mirror node's integer \<open>sequence_number\<close>, \<open>consensusTs\<close> its
  \<open>consensus_timestamp\<close>, a string \<open>seconds.nanoseconds\<close>; \<open>type\<close>, \<open>ts\<close> and
  \<open>data\<close> come from the payload and \<open>parseError\<close> is the property
  \<open>_parseError\<close>.
\<close>

record message =
  seq :: int
  consensusTs :: string
  type :: jsval
  ts :: jsval
  data :: jsval
  parseError :: jsval

subsection \<open>verify\<close>

text \<open>The issue strings, one definition per template literal of \<open>verify\<close>. Only the
  first one renders a value of the payload and can throw.\<close>

definition no_messages_text :: string where
  "no_messages_text = ''FAIL: No messages found on topic''"

definition first_text :: "jsval \<Rightarrow> string option" where
  "first_text t =
     map_option
       (\<lambda>s. ''FAIL: First message is '' @ [CHR 0x22] @ s @ [CHR 0x22] @
            '', expected '' @ [CHR 0x22] @ ''agent.create'' @ [CHR 0x22])
       (js_to_string t)"

definition gap_text :: "int \<Rightarrow> int \<Rightarrow> string" where
  "gap_text a b = ''FAIL: Sequence gap between '' @ show_int a @ '' and '' @ show_int b"

definition ts_text :: "int \<Rightarrow> string" where
  "ts_text s = ''FAIL: Timestamp ordering violated at seq '' @ show_int s"

definition parse_text :: "nat \<Rightarrow> string" where
  "parse_text n = ''WARN: '' @ show_nat n @ '' message(s) could not be parsed as JSON''"

definition soul_text :: "int \<Rightarrow> string" where
  "soul_text s = ''INFO: Soul hash changed at seq '' @ show_int s @ '' (identity modified)''"

text \<open>
  The three \<open>for (let i = 1; i < xs.length; i++)\<close> loops. Each takes the array
  \<open>issues\<close> and returns it with the strings it pushed. \<open>seq + 1\<close> is the sum of
  integers, which is what the code computes for sequence numbers of magnitude below
  2^53; above that the code's sum is rounded, which this definition does not follow.
  \<open>consensusTs\<close> values are strings, so \<open><\<close> is JavaScript's comparison of
  strings, code unit by code unit: the lexicographic order of \<open>string\<close>.
\<close>

function seq_loop :: "nat \<Rightarrow> message list \<Rightarrow> string list \<Rightarrow> string list" where
  "seq_loop i messages issues =
     (if i < length messages then
        seq_loop (i + 1) messages
          (if seq (messages ! i) \<noteq> seq (messages ! (i - 1)) + 1
           then issues @ [gap_text (seq (messages ! (i - 1))) (seq (messages ! i))]
           else issues)
      else issues)"
  by pat_completeness auto
termination
  by (relation "measure (\<lambda>(i, messages, issues). length messages - i)") auto

function ts_loop :: "nat \<Rightarrow> message list \<Rightarrow> string list \<Rightarrow> string list" where
  "ts_loop i messages issues =
     (if i < length messages then
        ts_loop (i + 1) messages
          (if consensusTs (messages ! i) < consensusTs (messages ! (i - 1))
           then issues @ [ts_text (seq (messages ! i))]
           else issues)
      else issues)"
  by pat_completeness auto
termination
  by (relation "measure (\<lambda>(i, messages, issues). length messages - i)") auto

function soul_loop :: "nat \<Rightarrow> message list \<Rightarrow> string list \<Rightarrow> string list" where
  "soul_loop i soulVerifies issues =
     (if i < length soulVerifies then
        soul_loop (i + 1) soulVerifies
          (if match_is_false (data (soulVerifies ! i))
           then issues @ [soul_text (seq (soulVerifies ! i))]
           else issues)
      else issues)"
  by pat_completeness auto
termination
  by (relation "measure (\<lambda>(i, soulVerifies, issues). length soulVerifies - i)") auto

declare seq_loop.simps [simp del] ts_loop.simps [simp del] soul_loop.simps [simp del]

text \<open>\<open>verify\<close> returns the issues, or throws while it renders the type of the first
  message.\<close>

definition verify :: "message list \<Rightarrow> error + string list" where
  "verify messages =
     (if length messages = 0 then Inr [no_messages_text]
      else
        case (if type (messages ! 0) \<noteq> JStr ''agent.create''
              then (case first_text (type (messages ! 0)) of
                      None \<Rightarrow> Inl TypeError
                    | Some s \<Rightarrow> Inr ([] @ [s]))
              else Inr [])
        of
          Inl e \<Rightarrow> Inl e
        | Inr issues \<Rightarrow>
            let issues = seq_loop 1 messages issues;
                issues = ts_loop 1 messages issues;
                parseErrors = filter (\<lambda>m. truthy (parseError m)) messages;
                issues = (if length parseErrors > 0
                          then issues @ [parse_text (length parseErrors)] else issues);
                soulVerifies = filter (\<lambda>m. type m = JStr ''soul.verify'') messages
            in Inr (soul_loop 1 soulVerifies issues))"

subsection \<open>fetchAllMessages: from payloads to messages\<close>

text \<open>
  \<open>JSON.parse(Buffer.from(msg.message, "base64").toString("utf-8"))\<close> is library code;
  its outcome is part of the input: \<open>None\<close> when it throws. A parsed payload is seen
  through the own properties that the spread \<open>...content\<close> can put under the six
  names read later (a payload that is not an object, such as a number, has none of
  them). An own \<open>seq\<close> is an integer and an own \<open>consensusTs\<close> a string here, as the
  fields they overwrite are: a payload that sets them to values of other kinds is outside
  this model. \<open>JUndefined\<close> stands for an absent property.
\<close>

record content =
  own_seq :: "int option"
  own_consensusTs :: "string option"
  own_type :: jsval
  own_ts :: jsval
  own_data :: jsval
  own_parseError :: jsval

record topic_message =
  sequence_number :: int
  consensus_timestamp :: string
  parsed :: "content option"

text \<open>The object pushed for one \<open>msg\<close>: the \<open>try\<close> branch spreads the payload over
  \<open>seq\<close> and \<open>consensusTs\<close>, so its own properties win; the \<open>catch\<close> branch marks
  the message.\<close>

definition to_message :: "topic_message \<Rightarrow> message" where
  "to_message msg =
     (case parsed msg of
        Some c \<Rightarrow>
          \<lparr> seq = (case own_seq c of None \<Rightarrow> sequence_number msg | Some n \<Rightarrow> n),
            consensusTs =
              (case own_consensusTs c of None \<Rightarrow> consensus_timestamp msg | Some t \<Rightarrow> t),
            type = own_type c, ts = own_ts c, data = own_data c,
            parseError = own_parseError c \<rparr>
      | None \<Rightarrow>
          \<lparr> seq = sequence_number msg, consensusTs = consensus_timestamp msg,
            type = JUndefined, ts = JUndefined, data = JUndefined,
            parseError = JBool True \<rparr>)"

text \<open>\<open>for (const msg of resp.messages) { ... messages.push(...) }\<close>; the pages of the
  mirror node are appended one after the other by the same loop.\<close>

fun push_messages :: "message list \<Rightarrow> topic_message list \<Rightarrow> message list" where
  "push_messages messages [] = messages"
| "push_messages messages (msg # rest) = push_messages (messages @ [to_message msg]) rest"

subsection \<open>displaySummary\<close>

text \<open>The UTF-8 bytes of the three symbols the result lines print.\<close>

definition check_mark :: string where
  "check_mark = [CHR 0xE2, CHR 0x9C, CHR 0x85]"

definition warning_sign :: string where
  "warning_sign = [CHR 0xE2, CHR 0x9A, CHR 0xA0, CHR 0xEF, CHR 0xB8, CHR 0x8F]"

definition em_dash :: string where
  "em_dash = [CHR 0xE2, CHR 0x80, CHR 0x94]"

definition passed_line :: string where
  "passed_line =
     ''  '' @ check_mark @ '' Verification: PASSED '' @ em_dash @ '' Log integrity intact''"

text \<open>The lines printed by the block \<open>// Verification results\<close>, the last one of
  \<open>displaySummary\<close>.\<close>

definition displaySummary_results :: "string list \<Rightarrow> string list" where
  "displaySummary_results issues =
     (if length issues = 0 then [passed_line]
      else (''  '' @ warning_sign @ ''  Verification Issues:'') #
           map (\<lambda>issue. ''     '' @ issue) issues)
     @ ['''']"

text \<open>\<open>padStart\<close> and \<open>padEnd\<close> with the default filler, a space.\<close>

definition padStart :: "nat \<Rightarrow> string \<Rightarrow> string" where
  "padStart n s = replicate (n - length s) CHR '' '' @ s"

definition padEnd :: "nat \<Rightarrow> string \<Rightarrow> string" where
  "padEnd n s = s @ replicate (n - length s) CHR '' ''"

text \<open>The line \<open>TOTAL\<close> of the attestation summary: the number of records.\<close>

definition total_line :: "message list \<Rightarrow> string" where
  "total_line messages =
     ''  '' @ padEnd 20 ''TOTAL'' @ '' '' @ padStart 6 (show_nat (length messages))"

text \<open>
  Before its last block \<open>displaySummary\<close> prints the agent, the count of each type
  and the last ten messages. These lines throw a \<open>TypeError\<close> in three places.
  \<^item> The lines of the \<open>agent.create\<close> message render \<open>data?.name || "Unknown"\<close>,
    \<open>ts\<close>, \<open>data?.framework || "Unknown"\<close> and \<open>data?.soul_hash || "None"\<close>.
  \<^item> The count uses \<open>type || "unknown"\<close> as a property key, which converts it to a
    string.
  \<^item> A line of the last ten messages calls \<open>padEnd\<close> on \<open>type || "?"\<close>, on
    \<open>data?.tool || data?.name || data?.status || ""\<close> and on
    \<open>data?.status || ""\<close>, which only a string has, and \<open>slice\<close> on
    \<open>ts || ""\<close>, which a string and an array have; the slice of an array, its first
    19 elements, is then rendered.
\<close>

definition render_ok :: "jsval \<Rightarrow> bool" where
  "render_ok v = (js_to_string v \<noteq> None)"

definition is_string :: "jsval \<Rightarrow> bool" where
  "is_string v = (case v of JStr s \<Rightarrow> True | _ \<Rightarrow> False)"

definition agent_lines_ok :: "message \<Rightarrow> bool" where
  "agent_lines_ok agentCreate =
     (render_ok (js_or (opt_prop (data agentCreate) ''name'') (JStr ''Unknown''))
      \<and> render_ok (ts agentCreate)
      \<and> render_ok (js_or (opt_prop (data agentCreate) ''framework'') (JStr ''Unknown''))
      \<and> render_ok (js_or (opt_prop (data agentCreate) ''soul_hash'') (JStr ''None'')))"

definition type_key_ok :: "message \<Rightarrow> bool" where
  "type_key_ok m = render_ok (js_or (type m) (JStr ''unknown''))"

definition recent_line_ok :: "message \<Rightarrow> bool" where
  "recent_line_ok m =
     (is_string (js_or (type m) (JStr ''?''))
      \<and> is_string
          (js_or (js_or (js_or (opt_prop (data m) ''tool'') (opt_prop (data m) ''name''))
                   (opt_prop (data m) ''status''))
             (JStr ''''))
      \<and> is_string (js_or (opt_prop (data m) ''status'') (JStr ''''))
      \<and> (case js_or (ts m) (JStr '''') of
            JStr s \<Rightarrow> True
          | JArr xs \<Rightarrow> render_ok (JArr (take 19 xs))
          | _ \<Rightarrow> False))"

text \<open>
  \<open>displaySummary\<close>: a \<open>TypeError\<close>, or the lines of its last block. The lines
  printed before are left out; none of them can be the line \<open>PASSED\<close>, since a count
  line ends with a digit and a line of the last ten messages starts with two spaces and a
  sequence number.
\<close>

definition displaySummary :: "message list \<Rightarrow> string list \<Rightarrow> error + string list" where
  "displaySummary messages issues =
     (if (case find (\<lambda>m. type m = JStr ''agent.create'') messages of
            Some agentCreate \<Rightarrow> \<not> agent_lines_ok agentCreate
          | None \<Rightarrow> False)
      then Inl TypeError
      else if \<not> list_all type_key_ok messages then Inl TypeError
      else if \<not> list_all recent_line_ok (drop (length messages - 10) messages)
      then Inl TypeError
      else Inr (displaySummary_results issues))"

text \<open>What \<open>main\<close> does with the messages it fetched:
  \<open>const issues = verify(messages); displaySummary(messages, issues);\<close>\<close>

definition audit :: "message list \<Rightarrow> error + string list" where
  "audit messages =
     (case verify messages of
        Inl e \<Rightarrow> Inl e
      | Inr issues \<Rightarrow> displaySummary messages issues)"

text \<open>The run is reported as passed when the line \<open>PASSED\<close> is printed.\<close>

definition reports_passed :: "error + string list \<Rightarrow> bool" where
  "reports_passed outcome =
     (case outcome of Inl e \<Rightarrow> False | Inr printed \<Rightarrow> passed_line \<in> set printed)"

subsection \<open>Reading the issue strings\<close>

definition is_fail :: "string \<Rightarrow> bool" where
  "is_fail s = prefix ''FAIL:'' s"

definition is_warn :: "string \<Rightarrow> bool" where
  "is_warn s = prefix ''WARN:'' s"

definition is_info :: "string \<Rightarrow> bool" where
  "is_info s = prefix ''INFO:'' s"

definition is_regression :: "string \<Rightarrow> bool" where
  "is_regression s = prefix ''FAIL: Timestamp ordering violated at seq '' s"

section \<open>val-soul.js\<close>

text \<open>
  What the script reads from outside: the SHA-256 digest in hexadecimal (library code, a
  parameter), the identity files of the workspace (\<open>None\<close> for a file that cannot be
  read), the answer of the mirror node, the topic, the two readings of the clock, and
  whether the UTF-8 length of a serialised attestation exceeds 1024 bytes.
\<close>

datatype mirror_response =
    Unreachable
  | Response "jsval option list option"

text \<open>
  \<open>Unreachable\<close>: \<open>fetchJson\<close> rejects. \<open>Response None\<close>: the answer has no
  \<open>messages\<close> to iterate. \<open>Response (Some ms)\<close>: the messages, newest first, each
  with its parsed payload, \<open>None\<close> when decoding or \<open>JSON.parse\<close> throws.
\<close>

record soul_env =
  sha256_hex :: "string \<Rightarrow> string"
  readFile :: "string \<Rightarrow> string option"
  mirror :: mirror_response
  topicId :: string
  now :: string
  now_trimmed :: string
  exceeds_limit :: "jsval \<Rightarrow> bool"

definition identityFiles :: "string list" where
  "identityFiles = [''SOUL.md'', ''AGENTS.md'', ''IDENTITY.md'', ''USER.md'']"

definition hashFile :: "soul_env \<Rightarrow> string \<Rightarrow> string option" where
  "hashFile env filePath =
     (case readFile env filePath of
        Some fileContent \<Rightarrow> Some (''sha256:'' @ sha256_hex env fileContent)
      | None \<Rightarrow> None)"

text \<open>
  The loop of \<open>getLastSoulHash\<close>. It returns at the first message of type
  \<open>soul.verify\<close> or \<open>agent.create\<close>, whether or not that message carries a
  \<open>soul_hash\<close>. A payload \<open>null\<close> makes \<open>content.type\<close> throw inside the
  \<open>try\<close>, which skips the message as a failed parse does.
\<close>

fun find_soul_hash :: "jsval option list \<Rightarrow> jsval" where
  "find_soul_hash [] = JNull"
| "find_soul_hash (None # rest) = find_soul_hash rest"
| "find_soul_hash (Some c # rest) =
     (if opt_prop c ''type'' = JStr ''soul.verify'' \<or> opt_prop c ''type'' = JStr ''agent.create''
      then js_or (opt_prop (opt_prop c ''data'') ''soul_hash'') JNull
      else find_soul_hash rest)"

definition getLastSoulHash :: "soul_env \<Rightarrow> jsval" where
  "getLastSoulHash env =
     (case mirror env of
        Unreachable \<Rightarrow> JNull
      | Response None \<Rightarrow> JNull
      | Response (Some ms) \<Rightarrow> find_soul_hash ms)"

text \<open>The object \<open>files\<close>: the hash of every identity file that could be read.\<close>

definition hashed_files :: "soul_env \<Rightarrow> (string \<times> string) list" where
  "hashed_files env =
     concat (map (\<lambda>filename. case hashFile env filename of
                                 Some h \<Rightarrow> [(filename, h)] | None \<Rightarrow> [])
                 identityFiles)"

text \<open>\<open>"sha256:" + sha256(Object.values(files).sort().join("|"))\<close>; \<open>sort\<close> orders
  strings by code units.\<close>

definition soulHash :: "soul_env \<Rightarrow> string" where
  "soulHash env =
     ''sha256:'' @ sha256_hex env (intercalate ''|'' (sort (map snd (hashed_files env))))"

text \<open>\<open>lastHash ? (lastHash === soulHash) : true\<close>\<close>

definition soul_match :: "jsval \<Rightarrow> string \<Rightarrow> bool" where
  "soul_match lastHash h = (if truthy lastHash then lastHash = JStr h else True)"

text \<open>
  \<open>main\<close>: \<open>None\<close> when no identity file is found (the script exits), otherwise the
  attestation passed to \<open>TopicMessageSubmitTransaction\<close>, before serialisation.
\<close>

definition main :: "soul_env \<Rightarrow> jsval option" where
  "main env =
     (if length (hashed_files env) = 0 then None
      else
        let lastHash = getLastSoulHash env;
            match = soul_match lastHash (soulHash env);
            attestation = JObj
              [(''val'', JStr ''1.0''), (''type'', JStr ''soul.verify''),
               (''ts'', JStr (now env)), (''agent'', JStr (topicId env)),
               (''data'', JObj
                  [(''soul_hash'', JStr (soulHash env)),
                   (''files'', JObj (map (\<lambda>(f, h). (f, JStr h)) (hashed_files env))),
                   (''match'', JBool match)])]
        in if exceeds_limit env attestation
           then Some (JObj
              [(''val'', JStr ''1.0''), (''type'', JStr ''soul.verify''),
               (''ts'', JStr (now_trimmed env)), (''agent'', JStr (topicId env)),
               (''data'', JObj
                  [(''soul_hash'', JStr (soulHash env)), (''match'', JBool match)])])
           else Some attestation)"

section \<open>What each check of verify contributes\<close>

text \<open>The pairs \<open>(messages[i - 1], messages[i])\<close> for \<open>i = 1, 2, ...\<close>\<close>

definition adjacent :: "'a list \<Rightarrow> ('a \<times> 'a) list" where
  "adjacent xs = zip xs (tl xs)"

definition first_issues :: "message list \<Rightarrow> string list option" where
  "first_issues messages =
     (if type (messages ! 0) \<noteq> JStr ''agent.create''
      then map_option (\<lambda>s. [s]) (first_text (type (messages ! 0))) else Some [])"

definition gap_issues :: "message list \<Rightarrow> string list" where
  "gap_issues messages =
     map (\<lambda>(prev, cur). gap_text (seq prev) (seq cur))
       (filter (\<lambda>(prev, cur). seq cur \<noteq> seq prev + 1) (adjacent messages))"

definition regression_issues :: "message list \<Rightarrow> string list" where
  "regression_issues messages =
     map (\<lambda>(prev, cur). ts_text (seq cur))
       (filter (\<lambda>(prev, cur). consensusTs cur < consensusTs prev) (adjacent messages))"

definition parse_issues :: "message list \<Rightarrow> string list" where
  "parse_issues messages =
     (if 0 < length (filter (\<lambda>m. truthy (parseError m)) messages)
      then [parse_text (length (filter (\<lambda>m. truthy (parseError m)) messages))] else [])"

definition soul_issues :: "message list \<Rightarrow> string list" where
  "soul_issues messages =
     map (\<lambda>m. soul_text (seq m))
       (filter (\<lambda>m. match_is_false (data m))
          (tl (filter (\<lambda>m. type m = JStr ''soul.verify'') messages)))"

text \<open>All that \<open>verify\<close> looks at in a message that is not the first one.\<close>

definition checked_view :: "message \<Rightarrow> int \<times> string \<times> bool \<times> bool \<times> bool" where
  "checked_view m =
     (seq m, consensusTs m, truthy (parseError m), type m = JStr ''soul.verify'',
      match_is_false (data m))"

subsection \<open>The required fields of the four message types\<close>

text \<open>The tables of section 5 of the VAL specification (blog/agent-trust-gap.md): the
  fields marked required for each \<open>type\<close>; \<open>None\<close> for any other type.\<close>

definition required_fields :: "string \<Rightarrow> string list option" where
  "required_fields t =
     (if t = ''agent.create'' then Some [''name'', ''soul_hash'', ''capabilities'']
      else if t = ''action'' then Some [''tool'', ''status'']
      else if t = ''soul.verify'' then Some [''soul_hash'', ''match'']
      else if t = ''heartbeat'' then Some [''status'']
      else None)"

definition known_kind :: "message \<Rightarrow> bool" where
  "known_kind m =
     (case type m of JStr t \<Rightarrow> required_fields t \<noteq> None | _ \<Rightarrow> False)"

definition misses_required_field :: "message \<Rightarrow> bool" where
  "misses_required_field m =
     (case type m of
        JStr t \<Rightarrow>
          (case required_fields t of
             Some ks \<Rightarrow> list_ex (\<lambda>k. opt_prop (data m) k = JUndefined) ks
           | None \<Rightarrow> False)
      | _ \<Rightarrow> False)"

subsection \<open>Consensus timestamps as instants\<close>

text \<open>
  The mirror node writes a consensus timestamp as \<open>seconds.nanoseconds\<close>, the
  nanoseconds with nine digits. \<open>instant\<close> is the time such a string denotes, in
  nanoseconds; \<open>None\<close> for a string of another form.
\<close>

definition is_digit :: "char \<Rightarrow> bool" where
  "is_digit c = (CHR ''0'' \<le> c \<and> c \<le> CHR ''9'')"

definition digit_value :: "char \<Rightarrow> nat" where
  "digit_value c = of_char c - 48"

fun decimal_value :: "string \<Rightarrow> nat" where
  "decimal_value [] = 0"
| "decimal_value (c # cs) = digit_value c * 10 ^ length cs + decimal_value cs"

definition instant :: "string \<Rightarrow> nat option" where
  "instant s =
     (let secs = takeWhile (\<lambda>c. c \<noteq> CHR ''.'') s;
          rest = dropWhile (\<lambda>c. c \<noteq> CHR ''.'') s
      in if secs \<noteq> [] \<and> list_all is_digit secs \<and> rest \<noteq> [] \<and> length (tl rest) = 9
            \<and> list_all is_digit (tl rest)
         then Some (decimal_value secs * 10 ^ 9 + decimal_value (tl rest))
         else None)"

subsection \<open>Sample logs\<close>

definition attestation :: "int \<Rightarrow> string \<Rightarrow> string \<Rightarrow> jsval \<Rightarrow> message" where
  "attestation n t kind d =
     \<lparr> seq = n, consensusTs = t, type = JStr kind, ts = JStr ''2026-02-13T14:00:00Z'',
       data = d, parseError = JUndefined \<rparr>"

definition create_data :: jsval where
  "create_data =
     JObj [(''name'', JStr ''Aite''), (''soul_hash'', JStr ''sha256:a3f2''),
           (''capabilities'', JArr [JStr ''web_search''])]"

definition soul_data :: "string \<Rightarrow> bool \<Rightarrow> jsval" where
  "soul_data h b = JObj [(''soul_hash'', JStr h), (''match'', JBool b)]"

text \<open>A log whose only finding is a disclosed change of the identity files.\<close>

definition drift_log :: "message list" where
  "drift_log =
     [attestation 1 ''1770991200.000000000'' ''agent.create'' create_data,
      attestation 2 ''1770991260.000000000'' ''soul.verify'' (soul_data ''sha256:a3f2'' True),
      attestation 3 ''1770991320.000000000'' ''soul.verify'' (soul_data ''sha256:77b1'' False)]"

text \<open>An \<open>agent.create\<close> without any of its required fields, followed by a message of
  a type that is none of the four.\<close>

definition bare_log :: "message list" where
  "bare_log =
     [attestation 1 ''1770991200.000000000'' ''agent.create'' (JObj []),
      attestation 2 ''1770991260.000000000'' ''telemetry'' (JObj [])]"

text \<open>The same log with every required field present and a known second type.\<close>

definition full_log :: "message list" where
  "full_log =
     [attestation 1 ''1770991200.000000000'' ''agent.create'' create_data,
      attestation 2 ''1770991260.000000000'' ''heartbeat''
        (JObj [(''status'', JStr ''active'')])]"

text \<open>Four identity checks with the hashes H1, H1, H2, H2; the third one reports the
  change (\<open>honest_log\<close>) or denies it (\<open>lying_log\<close>).\<close>

definition identity_log :: "bool \<Rightarrow> message list" where
  "identity_log third =
     [attestation 1 ''1770991200.000000000'' ''agent.create'' create_data,
      attestation 2 ''1770991260.000000000'' ''soul.verify'' (soul_data ''sha256:a3f2'' True),
      attestation 3 ''1770991320.000000000'' ''soul.verify'' (soul_data ''sha256:a3f2'' True),
      attestation 4 ''1770991380.000000000'' ''soul.verify'' (soul_data ''sha256:77b1'' third),
      attestation 5 ''1770991440.000000000'' ''soul.verify'' (soul_data ''sha256:77b1'' True)]"

definition honest_log :: "message list" where
  "honest_log = identity_log False"

definition lying_log :: "message list" where
  "lying_log = identity_log True"

text \<open>A log whose second and third timestamps are equal and whose fourth goes back.\<close>

definition regressed_log :: "message list" where
  "regressed_log =
     [attestation 1 ''1770991200.000000000'' ''agent.create'' create_data,
      attestation 2 ''1770991260.000000000'' ''action'' JUndefined,
      attestation 3 ''1770991260.000000000'' ''action'' JUndefined,
      attestation 4 ''1770991259.999999999'' ''heartbeat'' JUndefined]"

text \<open>A log whose second message was written one second before the first, across the
  instant where the seconds get a tenth digit.\<close>

definition rewound_log :: "message list" where
  "rewound_log =
     [attestation 1 ''1000000000.000000000'' ''agent.create'' create_data,
      attestation 2 ''999999999.000000000'' ''action'' JUndefined]"

text \<open>A log that starts with an action, skips the number 2 and goes back in time.\<close>

definition headless_log :: "message list" where
  "headless_log =
     [attestation 1 ''1770991200.000000000'' ''action'' JUndefined,
      attestation 3 ''1770991100.000000000'' ''action'' JUndefined]"

text \<open>The type of a payload \<open>{"type": {"toString": 1}, ...}\<close>, and two logs that
  start with a message of this type: one with a single message, one that goes on with a
  message numbered 3 after the one numbered 1.\<close>

definition odd_type :: jsval where
  "odd_type = JObj [(''toString'', JNum 1)]"

definition odd_message :: message where
  "odd_message =
     \<lparr> seq = 1, consensusTs = ''1770991200.000000000'', type = odd_type,
       ts = JStr ''2026-02-13T14:00:00Z'', data = create_data, parseError = JUndefined \<rparr>"

definition odd_first_log :: "message list" where
  "odd_first_log = [odd_message]"

definition odd_gapped_log :: "message list" where
  "odd_gapped_log =
     [odd_message, attestation 3 ''1770991320.000000000'' ''action'' JUndefined]"

text \<open>A log that starts with a message of this type and whose second message,
  numbered 2, was written 100 seconds before the first.\<close>

definition odd_regressed_log :: "message list" where
  "odd_regressed_log =
     [odd_message, attestation 2 ''1770991100.000000000'' ''action'' JUndefined]"

text \<open>A clean log whose action has the payload data \<open>{"tool": 7}\<close>.\<close>

definition numeric_tool_log :: "message list" where
  "numeric_tool_log =
     [attestation 1 ''1770991200.000000000'' ''agent.create'' create_data,
      attestation 2 ''1770991260.000000000'' ''action'' (JObj [(''tool'', JNum 7)])]"

text \<open>A log with a single identity check, carrying the given \<open>data\<close>.\<close>

definition lone_check_log :: "jsval \<Rightarrow> message list" where
  "lone_check_log d =
     [attestation 1 ''1770991200.000000000'' ''agent.create'' create_data,
      attestation 2 ''1770991260.000000000'' ''soul.verify'' d]"

text \<open>A payload that does not parse, and a payload that parses and carries a truthy
  \<open>_parseError\<close> of its own.\<close>

definition undecodable :: "topic_message \<Rightarrow> bool" where
  "undecodable msg = (parsed msg = None)"

definition self_marked :: "topic_message \<Rightarrow> bool" where
  "self_marked msg =
     (case parsed msg of Some c \<Rightarrow> truthy (own_parseError c) | None \<Rightarrow> False)"

text \<open>Two messages of a topic. The payload of the first is
  \<open>{"type": "agent.create", "data": {...}, "_parseError": true}\<close>, which parses; the
  payload of the second is no JSON.\<close>

definition marked_topic :: "topic_message list" where
  "marked_topic =
     [\<lparr> sequence_number = 1, consensus_timestamp = ''1770991200.000000000'',
        parsed = Some \<lparr> own_seq = None, own_consensusTs = None,
                        own_type = JStr ''agent.create'', own_ts = JUndefined,
                        own_data = create_data, own_parseError = JBool True \<rparr> \<rparr>,
      \<lparr> sequence_number = 2, consensus_timestamp = ''1770991260.000000000'',
        parsed = None \<rparr>]"

text \<open>A workspace with one identity file, a mirror node whose newest message is an
  action and whose next one is a \<open>soul.verify\<close>, and a stand-in for the digest.\<close>

definition sample_env :: "string \<Rightarrow> soul_env" where
  "sample_env attested =
     \<lparr> sha256_hex = (\<lambda>s. s),
       readFile = (\<lambda>p. if p = ''SOUL.md'' then Some ''be kind'' else None),
       mirror = Response (Some
         [Some (JObj [(''type'', JStr ''action''), (''data'', JObj [])]),
          None,
          Some (JObj [(''type'', JStr ''soul.verify''),
                      (''data'', JObj [(''soul_hash'', JStr attested)])])]),
       topicId = ''0.0.6284099'',
       now = ''2026-02-13T14:10:00.000Z'',
       now_trimmed = ''2026-02-13T14:10:00.001Z'',
       exceeds_limit = (\<lambda>v. False) \<rparr>"

text \<open>The attestation that \<open>main\<close> submits in the sample workspace.\<close>

definition sample_attestation :: "bool \<Rightarrow> jsval" where
  "sample_attestation m =
     JObj [(''val'', JStr ''1.0''), (''type'', JStr ''soul.verify''),
           (''ts'', JStr ''2026-02-13T14:10:00.000Z''), (''agent'', JStr ''0.0.6284099''),
           (''data'', JObj
              [(''soul_hash'', JStr ''sha256:sha256:be kind''),
               (''files'', JObj [(''SOUL.md'', JStr ''sha256:be kind'')]),
               (''match'', JBool m)])]"

section \<open>The loops as lists of pairs\<close>

lemma length_adjacent: "length (adjacent xs) = length xs - 1"
  by (simp add: adjacent_def)

lemma drop_adjacent:
  assumes "0 < i" and "i < length xs"
  shows "drop (i - 1) (adjacent xs) = (xs ! (i - 1), xs ! i) # drop i (adjacent xs)"
proof -
  have len: "i - 1 < length (adjacent xs)"
    using assms by (simp add: length_adjacent)
  have "adjacent xs ! (i - 1) = (xs ! (i - 1), xs ! i)"
    using assms by (simp add: adjacent_def nth_tl)
  with Cons_nth_drop_Suc [OF len] assms show ?thesis
    by simp
qed

lemma seq_loop_drop:
  "0 < i \<Longrightarrow>
   seq_loop i messages issues =
     issues @ map (\<lambda>(prev, cur). gap_text (seq prev) (seq cur))
       (filter (\<lambda>(prev, cur). seq cur \<noteq> seq prev + 1) (drop (i - 1) (adjacent messages)))"
proof (induction i messages issues rule: seq_loop.induct)
  case (1 i messages issues)
  show ?case
  proof (cases "i < length messages")
    case True
    with "1.prems" have d: "drop (i - 1) (adjacent messages) =
        (messages ! (i - 1), messages ! i) # drop i (adjacent messages)"
      by (rule drop_adjacent)
    from True "1.IH" have "seq_loop (i + 1) messages
          (if seq (messages ! i) \<noteq> seq (messages ! (i - 1)) + 1
           then issues @ [gap_text (seq (messages ! (i - 1))) (seq (messages ! i))]
           else issues) =
        (if seq (messages ! i) \<noteq> seq (messages ! (i - 1)) + 1
           then issues @ [gap_text (seq (messages ! (i - 1))) (seq (messages ! i))]
           else issues) @
        map (\<lambda>(prev, cur). gap_text (seq prev) (seq cur))
          (filter (\<lambda>(prev, cur). seq cur \<noteq> seq prev + 1) (drop i (adjacent messages)))"
      by simp
    with True d show ?thesis
      by (subst seq_loop.simps) simp
  next
    case False
    then show ?thesis
      by (subst seq_loop.simps) (simp add: length_adjacent)
  qed
qed

lemma ts_loop_drop:
  "0 < i \<Longrightarrow>
   ts_loop i messages issues =
     issues @ map (\<lambda>(prev, cur). ts_text (seq cur))
       (filter (\<lambda>(prev, cur). consensusTs cur < consensusTs prev)
          (drop (i - 1) (adjacent messages)))"
proof (induction i messages issues rule: ts_loop.induct)
  case (1 i messages issues)
  show ?case
  proof (cases "i < length messages")
    case True
    with "1.prems" have d: "drop (i - 1) (adjacent messages) =
        (messages ! (i - 1), messages ! i) # drop i (adjacent messages)"
      by (rule drop_adjacent)
    from True "1.IH" have "ts_loop (i + 1) messages
          (if consensusTs (messages ! i) < consensusTs (messages ! (i - 1))
           then issues @ [ts_text (seq (messages ! i))] else issues) =
        (if consensusTs (messages ! i) < consensusTs (messages ! (i - 1))
           then issues @ [ts_text (seq (messages ! i))] else issues) @
        map (\<lambda>(prev, cur). ts_text (seq cur))
          (filter (\<lambda>(prev, cur). consensusTs cur < consensusTs prev)
             (drop i (adjacent messages)))"
      by simp
    with True d show ?thesis
      by (subst ts_loop.simps) simp
  next
    case False
    then show ?thesis
      by (subst ts_loop.simps) (simp add: length_adjacent)
  qed
qed

lemma soul_loop_drop:
  "soul_loop i soulVerifies issues =
     issues @ map (\<lambda>m. soul_text (seq m))
       (filter (\<lambda>m. match_is_false (data m)) (drop i soulVerifies))"
proof (induction i soulVerifies issues rule: soul_loop.induct)
  case (1 i soulVerifies issues)
  show ?case
  proof (cases "i < length soulVerifies")
    case True
    then have d: "drop i soulVerifies = soulVerifies ! i # drop (i + 1) soulVerifies"
      by (simp add: Cons_nth_drop_Suc)
    from True "1.IH" have "soul_loop (i + 1) soulVerifies
          (if match_is_false (data (soulVerifies ! i))
           then issues @ [soul_text (seq (soulVerifies ! i))] else issues) =
        (if match_is_false (data (soulVerifies ! i))
           then issues @ [soul_text (seq (soulVerifies ! i))] else issues) @
        map (\<lambda>m. soul_text (seq m))
          (filter (\<lambda>m. match_is_false (data m)) (drop (i + 1) soulVerifies))"
      by simp
    with True d show ?thesis
      by (subst soul_loop.simps) simp
  next
    case False
    then show ?thesis
      by (subst soul_loop.simps) simp
  qed
qed

text \<open>The issue list of a non-empty log is the concatenation of the five checks, in the
  order of the source, unless the first check throws.\<close>

lemma verify_parts:
  "messages \<noteq> [] \<Longrightarrow>
   verify messages =
     (case first_issues messages of
        None \<Rightarrow> Inl TypeError
      | Some first \<Rightarrow>
          Inr (first @ gap_issues messages @ regression_issues messages @
               parse_issues messages @ soul_issues messages))"
  by (simp add: verify_def Let_def seq_loop_drop ts_loop_drop soul_loop_drop
      first_issues_def gap_issues_def regression_issues_def parse_issues_def soul_issues_def
      drop_Suc split: option.splits)

lemma verify_Nil: "verify [] = Inr [no_messages_text]"
  by (simp add: verify_def)

section \<open>The prefixes of the issue strings\<close>

lemma first_text_prefix:
  assumes "first_text t = Some s"
  shows "is_fail s" and "\<not> is_regression s" and "\<not> is_warn s" and "\<not> is_info s"
  using assms
  by (auto simp: first_text_def is_fail_def is_regression_def is_warn_def is_info_def)

lemma is_regression_texts [simp]:
  "\<not> is_regression no_messages_text"
  "\<not> is_regression (gap_text a b)" "is_regression (ts_text s)"
  "\<not> is_regression (parse_text n)" "\<not> is_regression (soul_text s)"
  by (simp_all add: is_regression_def no_messages_text_def gap_text_def
      ts_text_def parse_text_def soul_text_def)

lemma is_fail_texts [simp]:
  "is_fail no_messages_text" "is_fail (gap_text a b)"
  "is_fail (ts_text s)" "\<not> is_fail (parse_text n)" "\<not> is_fail (soul_text s)"
  by (simp_all add: is_fail_def no_messages_text_def gap_text_def ts_text_def
      parse_text_def soul_text_def)

lemma is_warn_texts [simp]:
  "\<not> is_warn no_messages_text" "\<not> is_warn (gap_text a b)"
  "\<not> is_warn (ts_text s)" "is_warn (parse_text n)" "\<not> is_warn (soul_text s)"
  by (simp_all add: is_warn_def no_messages_text_def gap_text_def ts_text_def
      parse_text_def soul_text_def)

lemma is_info_texts [simp]:
  "\<not> is_info no_messages_text" "\<not> is_info (gap_text a b)"
  "\<not> is_info (ts_text s)" "\<not> is_info (parse_text n)" "is_info (soul_text s)"
  by (simp_all add: is_info_def no_messages_text_def gap_text_def ts_text_def
      parse_text_def soul_text_def)

lemma filter_map_all: "(\<And>x. P (f x)) \<Longrightarrow> filter P (map f xs) = map f xs"
  by (induction xs) auto

lemma filter_map_none: "(\<And>x. \<not> P (f x)) \<Longrightarrow> filter P (map f xs) = []"
  by (induction xs) auto

lemma filter_first_issues:
  assumes "first_issues ms = Some first"
  shows "filter is_regression first = []" and "filter is_warn first = []"
    and "filter is_info first = []"
  using assms by (auto simp: first_issues_def first_text_prefix split: if_splits)

lemma filter_regression_parts [simp]:
  "filter is_regression (gap_issues ms) = []"
  "filter is_regression (regression_issues ms) = regression_issues ms"
  "filter is_regression (parse_issues ms) = []" "filter is_regression (soul_issues ms) = []"
  by (auto simp: gap_issues_def regression_issues_def parse_issues_def
      soul_issues_def filter_map_all filter_map_none split_def)

lemma filter_warn_parts [simp]:
  "filter is_warn (gap_issues ms) = []"
  "filter is_warn (regression_issues ms) = []"
  "filter is_warn (parse_issues ms) = parse_issues ms" "filter is_warn (soul_issues ms) = []"
  by (auto simp: gap_issues_def regression_issues_def parse_issues_def
      soul_issues_def filter_map_all filter_map_none split_def)

lemma filter_info_parts [simp]:
  "filter is_info (gap_issues ms) = []"
  "filter is_info (regression_issues ms) = []" "filter is_info (parse_issues ms) = []"
  "filter is_info (soul_issues ms) = soul_issues ms"
  by (auto simp: gap_issues_def regression_issues_def parse_issues_def
      soul_issues_def filter_map_all filter_map_none split_def)

lemma verify_returns:
  assumes "verify messages = Inr issues" and "messages \<noteq> []"
  obtains first where "first_issues messages = Some first"
    and "issues = first @ gap_issues messages @ regression_issues messages @
           parse_issues messages @ soul_issues messages"
  using assms by (auto simp: verify_parts split: option.splits)

lemma filter_regression_verify:
  assumes "verify messages = Inr issues"
  shows "filter is_regression issues = regression_issues messages"
proof (cases "messages = []")
  case True
  with assms show ?thesis
    by (auto simp: verify_Nil regression_issues_def adjacent_def)
next
  case False
  with assms obtain first where "first_issues messages = Some first"
    and "issues = first @ gap_issues messages @ regression_issues messages @
           parse_issues messages @ soul_issues messages"
    by (rule verify_returns)
  then show ?thesis
    by (simp add: filter_first_issues)
qed

lemma filter_info_verify:
  assumes "verify messages = Inr issues"
  shows "filter is_info issues = soul_issues messages"
proof (cases "messages = []")
  case True
  with assms show ?thesis
    by (auto simp: verify_Nil soul_issues_def)
next
  case False
  with assms obtain first where "first_issues messages = Some first"
    and "issues = first @ gap_issues messages @ regression_issues messages @
           parse_issues messages @ soul_issues messages"
    by (rule verify_returns)
  then show ?thesis
    by (simp add: filter_first_issues)
qed

lemma filter_warn_verify:
  assumes "verify messages = Inr issues"
  shows "filter is_warn issues = parse_issues messages"
proof (cases "messages = []")
  case True
  with assms show ?thesis
    by (auto simp: verify_Nil parse_issues_def)
next
  case False
  with assms obtain first where "first_issues messages = Some first"
    and "issues = first @ gap_issues messages @ regression_issues messages @
           parse_issues messages @ soul_issues messages"
    by (rule verify_returns)
  then show ?thesis
    by (simp add: filter_first_issues)
qed

text \<open>The test \<open>data?.match === false\<close>, in terms of the property read.\<close>

lemma match_is_false_iff: "match_is_false d = (opt_prop d ''match'' = JBool False)"
  by (cases d) (auto split: option.splits)

section \<open>The result lines of displaySummary\<close>

lemma passed_line_shown: "(passed_line \<in> set (displaySummary_results issues)) = (issues = [])"
  by (auto simp: displaySummary_results_def passed_line_def check_mark_def warning_sign_def)

lemma displaySummary_returns:
  "displaySummary messages issues = Inr printed \<Longrightarrow> printed = displaySummary_results issues"
  by (auto simp: displaySummary_def split: if_splits)

section \<open>Sample logs, evaluated\<close>

lemma show_samples [simp]:
  "show_int 1 = ''1''" "show_int 2 = ''2''" "show_int 3 = ''3''" "show_int 4 = ''4''"
  "show_int 5 = ''5''" "show_nat 0 = ''0''" "show_nat 2 = ''2''"
  "show_nat (Suc (Suc 0)) = ''2''"
  by (simp_all add: show_int_def show_nat.simps)

lemmas parts_defs =
  first_issues_def first_text_def gap_issues_def regression_issues_def parse_issues_def
  soul_issues_def adjacent_def

lemma verify_drift_log:
  "verify drift_log = Inr [''INFO: Soul hash changed at seq 3 (identity modified)'']"
  by (simp add: verify_parts parts_defs drift_log_def attestation_def soul_data_def
      soul_text_def)

lemma verify_full_log: "verify full_log = Inr []"
  by (simp add: verify_parts parts_defs full_log_def attestation_def)

lemma verify_bare_log: "verify bare_log = Inr []"
  by (simp add: verify_parts parts_defs bare_log_def attestation_def)

lemma verify_honest_log:
  "verify honest_log = Inr [''INFO: Soul hash changed at seq 4 (identity modified)'']"
  by (simp add: verify_parts parts_defs honest_log_def identity_log_def attestation_def
      soul_data_def soul_text_def)

lemma verify_lying_log: "verify lying_log = Inr []"
  by (simp add: verify_parts parts_defs lying_log_def identity_log_def attestation_def
      soul_data_def)

lemma verify_headless_log:
  "verify headless_log =
     Inr [''FAIL: First message is '' @ [CHR 0x22] @ ''action'' @ [CHR 0x22] @
            '', expected '' @ [CHR 0x22] @ ''agent.create'' @ [CHR 0x22],
          ''FAIL: Sequence gap between 1 and 3'',
          ''FAIL: Timestamp ordering violated at seq 3'']"
  by (simp add: verify_parts parts_defs headless_log_def attestation_def gap_text_def
      ts_text_def)

lemma summary_lines_ok:
  "agent_lines_ok (attestation n t kind create_data)"
  "type_key_ok (attestation n t kind d)"
  "recent_line_ok (attestation n t kind create_data)"
  "recent_line_ok (attestation n t kind JUndefined)"
  "recent_line_ok (attestation n t kind (soul_data h b))"
  "recent_line_ok (attestation n t kind (JObj [(''status'', JStr ''active'')]))"
  by (simp_all add: agent_lines_ok_def type_key_ok_def recent_line_ok_def render_ok_def
      is_string_def js_or_def attestation_def create_data_def soul_data_def)

lemma displaySummary_drift_log:
  "displaySummary drift_log issues = Inr (displaySummary_results issues)"
  by (simp add: displaySummary_def drift_log_def summary_lines_ok)
    (simp add: attestation_def)

text \<open>\<open>(7).padEnd\<close> is no function: the summary of a log that verifies without
  any issue throws before its last block, and nothing is reported.\<close>

lemma audit_numeric_tool_log:
  "verify numeric_tool_log = Inr []"
  "displaySummary numeric_tool_log [] = Inl TypeError"
  "audit numeric_tool_log = Inl TypeError"
  "\<not> reports_passed (audit numeric_tool_log)"
proof -
  show v: "verify numeric_tool_log = Inr []"
    by (simp add: verify_parts parts_defs numeric_tool_log_def attestation_def)
  show d: "displaySummary numeric_tool_log [] = Inl TypeError"
    by (simp add: displaySummary_def numeric_tool_log_def summary_lines_ok)
      (simp add: recent_line_ok_def is_string_def js_or_def attestation_def)
  from v d show a: "audit numeric_tool_log = Inl TypeError"
    by (simp add: audit_def)
  then show "\<not> reports_passed (audit numeric_tool_log)"
    by (simp add: reports_passed_def)
qed

lemma displaySummary_full_log:
  "displaySummary full_log issues = Inr (displaySummary_results issues)"
  by (simp add: displaySummary_def full_log_def summary_lines_ok)
    (simp add: attestation_def)

section \<open>The order of timestamps of equal length\<close>

lemma digit_code:
  assumes "is_digit c"
  shows "48 \<le> (of_char c :: nat)" and "(of_char c :: nat) \<le> 57"
  using assms by (simp_all add: is_digit_def less_eq_char_def)

lemma digit_char_less:
  assumes "is_digit c" and "is_digit d"
  shows "(c < d) = (digit_value c < digit_value d)"
    and "(c = d) = (digit_value c = digit_value d)"
proof -
  note c = digit_code [OF assms(1)] and d = digit_code [OF assms(2)]
  have "(c < d) = ((of_char c :: nat) < of_char d)"
    by (simp add: less_char_def)
  also have "\<dots> = (digit_value c < digit_value d)"
    unfolding digit_value_def using c(1) d(1) by arith
  finally show "(c < d) = (digit_value c < digit_value d)" .
  have "(c = d) = ((of_char c :: nat) = of_char d)"
    by simp
  also have "\<dots> = (digit_value c = digit_value d)"
    unfolding digit_value_def using c(1) d(1) by arith
  finally show "(c = d) = (digit_value c = digit_value d)" .
qed

lemma digit_value_le: "is_digit c \<Longrightarrow> digit_value c \<le> 9"
  unfolding digit_value_def using digit_code [of c] by arith

lemma decimal_value_bound: "list_all is_digit cs \<Longrightarrow> decimal_value cs < 10 ^ length cs"
proof (induction cs)
  case Nil
  then show ?case by simp
next
  case (Cons c cs)
  then have "digit_value c \<le> 9" and v: "decimal_value cs < 10 ^ length cs"
    by (simp_all add: digit_value_le)
  then have "digit_value c * 10 ^ length cs \<le> 9 * 10 ^ length cs"
    by (simp add: mult_le_mono1)
  with v have "digit_value c * 10 ^ length cs + decimal_value cs < 10 * 10 ^ length cs"
    by linarith
  then show ?case
    by simp
qed

lemma positional_less:
  fixes a b c d p :: nat
  assumes "c < p" and "d < p"
  shows "(a * p + c < b * p + d) = (a < b \<or> a = b \<and> c < d)"
proof -
  have lt: "x * p + u < y * p + v" if "x < y" "u < p" for x y u v :: nat
  proof -
    from that have "Suc x * p \<le> y * p"
      by (intro mult_le_mono1) simp
    with that show ?thesis
      by simp
  qed
  consider "a < b" | "a = b" | "b < a"
    by arith
  then show ?thesis
  proof cases
    case 1
    with lt [of a b c d] assms show ?thesis by simp
  next
    case 2
    then show ?thesis by simp
  next
    case 3
    with lt [of b a d c] assms show ?thesis by simp
  qed
qed

lemma append_less_same_length:
  "length xs = length ys \<Longrightarrow>
   (xs @ us < ys @ vs) = (xs < ys \<or> xs = ys \<and> us < vs)"
proof (induction xs ys rule: list_induct2)
  case Nil
  show ?case by simp
next
  case (Cons x xs y ys)
  have "((x # xs) @ us < (y # ys) @ vs) = (x < y \<or> x = y \<and> xs @ us < ys @ vs)"
    by simp
  also have "\<dots> = (x < y \<or> x = y \<and> (xs < ys \<or> xs = ys \<and> us < vs))"
    by (simp only: Cons.IH)
  also have "\<dots> = (x # xs < y # ys \<or> x # xs = y # ys \<and> us < vs)"
    by auto
  finally show ?case .
qed

lemma digits_less:
  assumes "length xs = length ys" and "list_all is_digit xs" and "list_all is_digit ys"
  shows "(xs < ys) = (decimal_value xs < decimal_value ys)
         \<and> (xs = ys) = (decimal_value xs = decimal_value ys)"
  using assms
proof (induction xs ys rule: list_induct2)
  case Nil
  show ?case by simp
next
  case (Cons x xs y ys)
  from Cons.prems have dx: "is_digit x" and dy: "is_digit y"
    and xs: "list_all is_digit xs" and ys: "list_all is_digit ys"
    by simp_all
  define p :: nat where "p = 10 ^ length ys"
  define vx where "vx = decimal_value xs"
  define vy where "vy = decimal_value ys"
  define a where "a = digit_value x"
  define b where "b = digit_value y"
  from decimal_value_bound [OF xs] Cons.hyps have bx: "vx < p"
    by (simp add: p_def vx_def)
  from decimal_value_bound [OF ys] have by': "vy < p"
    by (simp add: p_def vy_def)
  have ex: "decimal_value (x # xs) = a * p + vx"
    using Cons.hyps by (simp add: p_def vx_def a_def)
  have ey: "decimal_value (y # ys) = b * p + vy"
    by (simp add: p_def vy_def b_def)
  from Cons.IH [OF xs ys] have ih1: "(xs < ys) = (vx < vy)" and ih2: "(xs = ys) = (vx = vy)"
    by (simp_all add: vx_def vy_def)
  from digit_char_less [OF dx dy] have c1: "(x < y) = (a < b)" and c2: "(x = y) = (a = b)"
    by (simp_all add: a_def b_def)
  have l: "(a * p + vx < b * p + vy) = (a < b \<or> a = b \<and> vx < vy)"
    using bx by' by (rule positional_less)
  have l': "(b * p + vy < a * p + vx) = (b < a \<or> b = a \<and> vy < vx)"
    using by' bx by (rule positional_less)
  have e: "(a * p + vx = b * p + vy) = (a = b \<and> vx = vy)"
    using l l' by (metis less_irrefl linorder_neqE_nat)
  have "(x # xs < y # ys) = (x < y \<or> x = y \<and> xs < ys)"
    by simp
  also have "\<dots> = (a < b \<or> a = b \<and> vx < vy)"
    by (simp only: c1 c2 ih1)
  also have "\<dots> = (decimal_value (x # xs) < decimal_value (y # ys))"
    by (simp only: ex ey l)
  finally have 1: "(x # xs < y # ys) = (decimal_value (x # xs) < decimal_value (y # ys))" .
  have "(x # xs = y # ys) = (a = b \<and> vx = vy)"
    by (simp only: list.inject c2 ih2)
  also have "\<dots> = (decimal_value (x # xs) = decimal_value (y # ys))"
    by (simp only: ex ey e)
  finally have 2: "(x # xs = y # ys) = (decimal_value (x # xs) = decimal_value (y # ys))" .
  from 1 2 show ?case ..
qed

lemma instant_parts:
  assumes "instant a = Some x"
  obtains secs nanos where "a = secs @ CHR ''.'' # nanos"
    and "list_all is_digit secs" and "list_all is_digit nanos" and "length nanos = 9"
    and "x = decimal_value secs * 10 ^ 9 + decimal_value nanos"
proof -
  define secs where "secs = takeWhile (\<lambda>c. c \<noteq> CHR ''.'') a"
  define rest where "rest = dropWhile (\<lambda>c. c \<noteq> CHR ''.'') a"
  have i: "instant a =
      (if secs \<noteq> [] \<and> list_all is_digit secs \<and> rest \<noteq> [] \<and> length (tl rest) = 9
          \<and> list_all is_digit (tl rest)
       then Some (decimal_value secs * 10 ^ 9 + decimal_value (tl rest)) else None)"
    unfolding instant_def secs_def rest_def Let_def ..
  have ok: "list_all is_digit secs \<and> rest \<noteq> [] \<and> length (tl rest) = 9
      \<and> list_all is_digit (tl rest)"
  proof (rule ccontr)
    assume "\<not> ?thesis"
    with i have "instant a = None"
      by (simp only: if_False de_Morgan_conj) presburger
    with assms show False
      by simp
  qed
  have ne: "secs \<noteq> []"
  proof
    assume "secs = []"
    with i have "instant a = None"
      by simp
    with assms show False
      by simp
  qed
  from i ok ne assms have x: "x = decimal_value secs * 10 ^ 9 + decimal_value (tl rest)"
    by (simp only: if_True simp_thms option.inject)
  from ok have "hd rest = CHR ''.''"
    unfolding rest_def using hd_dropWhile [of "\<lambda>c. c \<noteq> CHR ''.''" a] by blast
  with ok have "rest = CHR ''.'' # tl rest"
    by (cases rest) simp_all
  then have "a = secs @ CHR ''.'' # tl rest"
    unfolding secs_def rest_def
    using takeWhile_dropWhile_id [of "\<lambda>c. c \<noteq> CHR ''.''" a] by simp
  with ok x that show ?thesis
    by blast
qed

lemma instant_order:
  assumes "instant a = Some x" and "instant b = Some y" and "length a = length b"
  shows "(a < b) = (x < y)"
proof -
  from assms(1) obtain sa na where a: "a = sa @ CHR ''.'' # na"
    and da: "list_all is_digit sa" "list_all is_digit na" and la: "length na = 9"
    and x: "x = decimal_value sa * 10 ^ 9 + decimal_value na"
    by (rule instant_parts)
  from assms(2) obtain sb nb where b: "b = sb @ CHR ''.'' # nb"
    and db: "list_all is_digit sb" "list_all is_digit nb" and lb: "length nb = 9"
    and y: "y = decimal_value sb * 10 ^ 9 + decimal_value nb"
    by (rule instant_parts)
  from assms(3) a b la lb have ls: "length sa = length sb"
    by simp
  from la lb have ln: "length na = length nb"
    by simp
  from decimal_value_bound [OF da(2)] la have ba: "decimal_value na < 10 ^ 9"
    by simp
  from decimal_value_bound [OF db(2)] lb have bb: "decimal_value nb < 10 ^ 9"
    by simp
  have "(a < b) = (sa < sb \<or> sa = sb \<and> CHR ''.'' # na < CHR ''.'' # nb)"
    unfolding a b using ls by (rule append_less_same_length)
  also have "\<dots> = (sa < sb \<or> sa = sb \<and> na < nb)"
    by simp
  also have "\<dots> = (decimal_value sa < decimal_value sb \<or>
      decimal_value sa = decimal_value sb \<and> decimal_value na < decimal_value nb)"
    using digits_less [OF ls da(1) db(1)] digits_less [OF ln da(2) db(2)] by blast
  also have "\<dots> = (x < y)"
    unfolding x y using ba bb by (rule positional_less [symmetric])
  finally show ?thesis .
qed

section \<open>What verify reads\<close>

lemma adjacent_map: "adjacent (map f xs) = map (\<lambda>(x, y). (f x, f y)) (adjacent xs)"
  by (simp add: adjacent_def map_tl [symmetric] zip_map_map)

lemma gap_issues_view:
  "gap_issues ms =
     map (\<lambda>(p, c). gap_text (fst p) (fst c))
       (filter (\<lambda>(p, c). fst c \<noteq> fst p + 1) (adjacent (map checked_view ms)))"
  by (simp add: gap_issues_def adjacent_map filter_map comp_def split_def checked_view_def)

lemma regression_issues_view:
  "regression_issues ms =
     map (\<lambda>(p, c). ts_text (fst c))
       (filter (\<lambda>(p, c). fst (snd c) < fst (snd p)) (adjacent (map checked_view ms)))"
  by (simp add: regression_issues_def adjacent_map filter_map comp_def split_def
      checked_view_def)

lemma parse_errors_view:
  "length (filter (\<lambda>m. truthy (parseError m)) ms) =
     length (filter (\<lambda>v. fst (snd (snd v))) (map checked_view ms))"
  by (simp add: filter_map comp_def checked_view_def)

lemma soul_issues_view:
  "soul_issues ms =
     map (\<lambda>v. soul_text (fst v))
       (filter (\<lambda>v. snd (snd (snd (snd v))))
          (tl (filter (\<lambda>v. fst (snd (snd (snd v)))) (map checked_view ms))))"
  by (simp add: soul_issues_def filter_map comp_def checked_view_def map_tl [symmetric])

lemma verify_same_view:
  assumes "map checked_view ms = map checked_view ms'"
    and "map type (take 1 ms) = map type (take 1 ms')"
  shows "verify ms = verify ms'"
proof (cases "ms = []")
  case True
  with assms(1) show ?thesis
    by simp
next
  case False
  with assms(1) have ne: "ms' \<noteq> []"
    by auto
  from False ne assms(2) have "type (ms ! 0) = type (ms' ! 0)"
    by (cases ms; cases ms') simp_all
  then have "first_issues ms = first_issues ms'"
    by (simp add: first_issues_def)
  moreover from assms(1) have "gap_issues ms = gap_issues ms'"
    by (simp add: gap_issues_view)
  moreover from assms(1) have "regression_issues ms = regression_issues ms'"
    by (simp add: regression_issues_view)
  moreover from assms(1) have "parse_issues ms = parse_issues ms'"
    unfolding parse_issues_def parse_errors_view by simp
  moreover from assms(1) have "soul_issues ms = soul_issues ms'"
    by (simp add: soul_issues_view)
  ultimately show ?thesis
    using False ne by (simp add: verify_parts split: option.splits)
qed

section \<open>Claims\<close>

text \<open>
  C7. For the empty log, \<open>verify\<close> returns at once with the single issue
  \<open>FAIL: No messages found on topic\<close>: nothing else is in the list. The summary lists
  this issue, the run is not reported as passed, and the summary counts 0 records. An
  empty topic gives the empty log.
\<close>

theorem empty_log_single_fail:
  "verify [] = Inr [''FAIL: No messages found on topic'']
   \<and> filter is_fail [''FAIL: No messages found on topic''] =
       [''FAIL: No messages found on topic'']
   \<and> audit [] =
       Inr [''  '' @ warning_sign @ ''  Verification Issues:'',
            ''     FAIL: No messages found on topic'', '''']
   \<and> \<not> reports_passed (audit [])
   \<and> total_line [] = ''  TOTAL                     0''
   \<and> push_messages [] [] = []"
  by (simp add: verify_Nil audit_def displaySummary_def displaySummary_results_def
      reports_passed_def passed_line_def check_mark_def warning_sign_def total_line_def
      padEnd_def padStart_def no_messages_text_def is_fail_def show_nat.simps
      eval_nat_numeral)

text \<open>
  C1, as the code has it. Whenever \<open>displaySummary\<close> gets to its last block, it
  prints \<open>PASSED\<close> exactly when the issue list has no issue of any severity, and
  otherwise lists the issues under the heading \<open>Verification Issues\<close>. So a run
  reported as passed has no issue at all, hence no \<open>FAIL\<close> issue, but a run whose
  issues are all \<open>WARN\<close> or \<open>INFO\<close> is never reported as passed. (Nothing is said
  here about the runs in which \<open>verify\<close> or the earlier lines of the summary throw.)
\<close>

theorem passed_iff_no_issue:
  "(reports_passed (displaySummary messages issues) \<longrightarrow> issues = [])
   \<and> (reports_passed (audit messages) \<longrightarrow> verify messages = Inr [])
   \<and> (displaySummary messages issues = Inr printed \<longrightarrow>
        (passed_line \<in> set printed) = (issues = [])
        \<and> (issues \<noteq> [] \<longrightarrow>
             printed =
               (''  '' @ warning_sign @ ''  Verification Issues:'') #
               map (\<lambda>issue. ''     '' @ issue) issues @ ['''']))"
proof (intro conjI impI)
  assume "reports_passed (displaySummary messages issues)"
  then show "issues = []"
    by (auto simp: reports_passed_def passed_line_shown split: sum.splits
        dest: displaySummary_returns)
next
  assume "reports_passed (audit messages)"
  then show "verify messages = Inr []"
    by (auto simp: reports_passed_def audit_def passed_line_shown split: sum.splits
        dest: displaySummary_returns)
next
  assume "displaySummary messages issues = Inr printed"
  then have p: "printed = displaySummary_results issues"
    by (rule displaySummary_returns)
  then show "(passed_line \<in> set printed) = (issues = [])"
    by (simp add: passed_line_shown)
  assume "issues \<noteq> []"
  with p show "printed =
      (''  '' @ warning_sign @ ''  Verification Issues:'') #
      map (\<lambda>issue. ''     '' @ issue) issues @ ['''']"
    by (simp add: displaySummary_results_def)
qed

theorem passed_iff_no_issue_witness:
  "verify full_log = Inr [] \<and> audit full_log = Inr [passed_line, '''']
   \<and> reports_passed (audit full_log)
   \<and> verify drift_log = Inr [''INFO: Soul hash changed at seq 3 (identity modified)'']
   \<and> audit drift_log =
       Inr [''  '' @ warning_sign @ ''  Verification Issues:'',
            ''     INFO: Soul hash changed at seq 3 (identity modified)'', '''']
   \<and> \<not> reports_passed (audit drift_log)"
proof -
  have f: "audit full_log = Inr [passed_line, '''']"
    by (simp add: audit_def verify_full_log displaySummary_full_log
        displaySummary_results_def)
  have d: "audit drift_log = Inr (displaySummary_results
        [''INFO: Soul hash changed at seq 3 (identity modified)''])"
    by (simp add: audit_def verify_drift_log displaySummary_drift_log)
  from passed_iff_no_issue [of full_log "[]" "[passed_line, '''']"]
  have "passed_line \<in> set [passed_line, '''']"
    by (simp add: displaySummary_full_log displaySummary_results_def)
  then have 1: "reports_passed (audit full_log)"
    by (simp add: f reports_passed_def)
  from passed_iff_no_issue [of drift_log] have 2: "\<not> reports_passed (audit drift_log)"
    by (auto simp: verify_drift_log)
  from passed_iff_no_issue
    [of drift_log "[''INFO: Soul hash changed at seq 3 (identity modified)'']"
      "displaySummary_results [''INFO: Soul hash changed at seq 3 (identity modified)'']"]
  have 3: "displaySummary_results [''INFO: Soul hash changed at seq 3 (identity modified)''] =
      [''  '' @ warning_sign @ ''  Verification Issues:'',
       ''     INFO: Soul hash changed at seq 3 (identity modified)'', '''']"
    by (simp add: displaySummary_drift_log)
  from f d 1 2 3 show ?thesis
    by (simp add: verify_full_log verify_drift_log)
qed

text \<open>
  C1 as stated fails on this log: its only issue is an \<open>INFO\<close>, none is a \<open>FAIL\<close>,
  the summary is printed to its end, and the run is not reported as passed.
\<close>

theorem info_only_not_passed:
  "verify drift_log = Inr [''INFO: Soul hash changed at seq 3 (identity modified)'']
   \<and> filter is_fail [''INFO: Soul hash changed at seq 3 (identity modified)''] = []
   \<and> filter is_info [''INFO: Soul hash changed at seq 3 (identity modified)''] =
       [''INFO: Soul hash changed at seq 3 (identity modified)'']
   \<and> audit drift_log =
       Inr [''  '' @ warning_sign @ ''  Verification Issues:'',
            ''     INFO: Soul hash changed at seq 3 (identity modified)'', '''']
   \<and> \<not> reports_passed (audit drift_log)"
  by (simp add: verify_drift_log audit_def displaySummary_drift_log displaySummary_results_def
      reports_passed_def passed_line_def check_mark_def warning_sign_def is_fail_def
      is_info_def)

text \<open>
  C2, as the code has it. \<open>verify\<close> runs no check of the fields a message type
  requires. All it reads in a message is \<open>seq\<close>, \<open>consensusTs\<close>, whether
  \<open>_parseError\<close> is set, whether the type is \<open>soul.verify\<close> and whether
  \<open>data.match\<close> is \<open>false\<close>, and the type of the first message: two logs that agree
  on these get the same outcome, issue for issue, whatever fields their payloads have or
  lack and whatever their other types are. The only \<open>WARN\<close> issue is the one that
  counts the payloads that could not be parsed; an unknown type gives none.
\<close>

theorem verify_reads_no_payload_fields:
  assumes "map checked_view messages = map checked_view messages'"
    and "map type (take 1 messages) = map type (take 1 messages')"
  shows "verify messages = verify messages'
         \<and> (verify messages = Inr issues \<longrightarrow>
              filter is_warn issues =
                (if filter (\<lambda>m. truthy (parseError m)) messages = [] then []
                 else [parse_text (length (filter (\<lambda>m. truthy (parseError m)) messages))]))"
proof (intro conjI impI)
  from assms show "verify messages = verify messages'"
    by (rule verify_same_view)
  assume "verify messages = Inr issues"
  then have "filter is_warn issues = parse_issues messages"
    by (rule filter_warn_verify)
  then show "filter is_warn issues =
      (if filter (\<lambda>m. truthy (parseError m)) messages = [] then []
       else [parse_text (length (filter (\<lambda>m. truthy (parseError m)) messages))])"
    by (simp add: parse_issues_def)
qed

theorem verify_reads_no_payload_fields_witness:
  "map checked_view bare_log = map checked_view full_log
   \<and> map type (take 1 bare_log) = map type (take 1 full_log)
   \<and> misses_required_field (bare_log ! 0) \<and> \<not> misses_required_field (full_log ! 0)
   \<and> \<not> known_kind (bare_log ! 1) \<and> known_kind (full_log ! 1)
   \<and> verify bare_log = verify full_log
   \<and> verify bare_log = Inr []
   \<and> filter is_warn [] = []"
proof -
  have h1: "map checked_view bare_log = map checked_view full_log"
    and h2: "map type (take 1 bare_log) = map type (take 1 full_log)"
    by (simp_all add: bare_log_def full_log_def attestation_def checked_view_def
        create_data_def)
  have fields: "misses_required_field (bare_log ! 0) \<and> \<not> misses_required_field (full_log ! 0)
      \<and> \<not> known_kind (bare_log ! 1) \<and> known_kind (full_log ! 1)"
    by (simp add: bare_log_def full_log_def attestation_def misses_required_field_def
        known_kind_def required_fields_def create_data_def)
  from verify_reads_no_payload_fields [OF h1 h2] have e: "verify bare_log = verify full_log"
    by (rule conjunct1)
  then have "verify bare_log = Inr []"
    by (simp only: verify_full_log)
  with e h1 h2 fields show ?thesis
    by simp
qed

text \<open>
  C2 as stated fails on this log: its \<open>agent.create\<close> message has none of the
  required fields and its second message has a type that is none of the four, yet
  \<open>verify\<close> finds no issue, neither \<open>FAIL\<close> nor \<open>WARN\<close>.
\<close>

theorem missing_fields_unreported:
  "known_kind (bare_log ! 0) \<and> misses_required_field (bare_log ! 0)
   \<and> \<not> known_kind (bare_log ! 1)
   \<and> verify bare_log = Inr []"
  by (simp add: verify_bare_log)
    (simp add: bare_log_def attestation_def misses_required_field_def known_kind_def
      required_fields_def)

section \<open>Clean logs\<close>

lemma match_true_not_false: "opt_prop d ''match'' = JBool True \<Longrightarrow> \<not> match_is_false d"
  by (simp add: match_is_false_iff)

lemma match_false_is_false: "opt_prop d ''match'' = JBool False \<Longrightarrow> match_is_false d"
  by (simp add: match_is_false_iff)

lemma clean_log_parts:
  assumes "messages \<noteq> []" and "type (messages ! 0) = JStr ''agent.create''"
    and "\<forall>(prev, cur) \<in> set (zip messages (tl messages)).
           seq cur = seq prev + 1 \<and> consensusTs prev \<le> consensusTs cur"
    and "\<forall>m \<in> set messages. \<not> truthy (parseError m)"
  shows "verify messages = Inr (soul_issues messages)"
proof -
  from assms(3) have "filter (\<lambda>(prev, cur). seq cur \<noteq> seq prev + 1) (adjacent messages) = []"
    by (auto simp: filter_empty_conv adjacent_def)
  then have g: "gap_issues messages = []"
    by (simp add: gap_issues_def)
  from assms(3)
  have "filter (\<lambda>(prev, cur). consensusTs cur < consensusTs prev) (adjacent messages) = []"
    by (fastforce simp: filter_empty_conv adjacent_def)
  then have r: "regression_issues messages = []"
    by (simp add: regression_issues_def)
  from assms(4) have "filter (\<lambda>m. truthy (parseError m)) messages = []"
    by (simp add: filter_empty_conv)
  then have p: "parse_issues messages = []"
    by (simp add: parse_issues_def)
  from assms(2) have f: "first_issues messages = Some []"
    by (simp add: first_issues_def)
  from assms(1) f g r p show ?thesis
    by (simp add: verify_parts)
qed

text \<open>
  C3, as the code has it. Take a log that is clean otherwise (it starts with
  \<open>agent.create\<close>, its numbers are consecutive, its timestamps do not decrease, all
  its payloads parse) and whose \<open>soul.verify\<close> messages carry the hashes H1, H1, H2, H2,
  the second and the fourth with \<open>match = true\<close>. If the third one reports the change,
  \<open>match = false\<close>, the issue list is the single \<open>INFO\<close> naming its sequence
  number: no \<open>FAIL\<close>, no \<open>WARN\<close>. If the third one declares \<open>match = true\<close>
  although its hash changed, the issue list is empty: \<open>verify\<close> reads the \<open>match\<close>
  field only and never compares hashes, so it gives neither the \<open>INFO\<close> nor a
  \<open>WARN\<close>.
\<close>

theorem identity_checks_by_match_field:
  assumes "messages \<noteq> []" and "type (messages ! 0) = JStr ''agent.create''"
    and "\<forall>(prev, cur) \<in> set (zip messages (tl messages)).
           seq cur = seq prev + 1 \<and> consensusTs prev \<le> consensusTs cur"
    and "\<forall>m \<in> set messages. \<not> truthy (parseError m)"
    and "filter (\<lambda>m. type m = JStr ''soul.verify'') messages = [a, b, c, d]"
    and "map (\<lambda>m. opt_prop (data m) ''soul_hash'') [a, b, c, d] =
           [JStr H1, JStr H1, JStr H2, JStr H2]"
    and "H1 \<noteq> H2"
    and "opt_prop (data b) ''match'' = JBool True"
    and "opt_prop (data d) ''match'' = JBool True"
  shows "(opt_prop (data c) ''match'' = JBool False \<longrightarrow>
            verify messages = Inr [soul_text (seq c)] \<and> is_info (soul_text (seq c)))
         \<and> (opt_prop (data c) ''match'' = JBool True \<longrightarrow> verify messages = Inr [])"
proof -
  from assms(1-4) have v: "verify messages = Inr (soul_issues messages)"
    by (rule clean_log_parts)
  from assms(8) have b: "\<not> match_is_false (data b)"
    by (rule match_true_not_false)
  from assms(9) have d: "\<not> match_is_false (data d)"
    by (rule match_true_not_false)
  from assms(5) b d have s: "soul_issues messages =
      (if match_is_false (data c) then [soul_text (seq c)] else [])"
    by (simp add: soul_issues_def)
  show ?thesis
  proof (intro conjI impI)
    assume "opt_prop (data c) ''match'' = JBool False"
    then have "match_is_false (data c)"
      by (rule match_false_is_false)
    with v s show "verify messages = Inr [soul_text (seq c)]"
      by simp
    show "is_info (soul_text (seq c))"
      by simp
  next
    assume "opt_prop (data c) ''match'' = JBool True"
    then have "\<not> match_is_false (data c)"
      by (rule match_true_not_false)
    with v s show "verify messages = Inr []"
      by simp
  qed
qed

lemma identity_log_clean:
  "identity_log third \<noteq> []"
  "type (identity_log third ! 0) = JStr ''agent.create''"
  "\<forall>(prev, cur) \<in> set (zip (identity_log third) (tl (identity_log third))).
     seq cur = seq prev + 1 \<and> consensusTs prev \<le> consensusTs cur"
  "\<forall>m \<in> set (identity_log third). \<not> truthy (parseError m)"
  by (simp_all add: identity_log_def attestation_def)

lemma identity_log_checks:
  "filter (\<lambda>m. type m = JStr ''soul.verify'') (identity_log third) =
     [identity_log third ! 1, identity_log third ! 2, identity_log third ! 3,
      identity_log third ! 4]"
  "map (\<lambda>m. opt_prop (data m) ''soul_hash'')
     [identity_log third ! 1, identity_log third ! 2, identity_log third ! 3,
      identity_log third ! 4] =
     [JStr ''sha256:a3f2'', JStr ''sha256:a3f2'', JStr ''sha256:77b1'', JStr ''sha256:77b1'']"
  "''sha256:a3f2'' \<noteq> ''sha256:77b1''"
  "opt_prop (data (identity_log third ! 2)) ''match'' = JBool True"
  "opt_prop (data (identity_log third ! 4)) ''match'' = JBool True"
  "opt_prop (data (identity_log third ! 3)) ''match'' = JBool third"
  "seq (identity_log third ! 3) = 4"
  by (simp_all add: identity_log_def attestation_def soul_data_def)

theorem identity_checks_by_match_field_witness:
  "opt_prop (data (honest_log ! 3)) ''match'' = JBool False
   \<and> verify honest_log = Inr [''INFO: Soul hash changed at seq 4 (identity modified)'']
   \<and> opt_prop (data (lying_log ! 3)) ''match'' = JBool True
   \<and> verify lying_log = Inr []"
proof -
  note inst = identity_checks_by_match_field [OF identity_log_clean identity_log_checks(1-5)]
  have "verify (identity_log False) = Inr [soul_text 4]"
    using inst [of False] by (simp add: identity_log_checks(6,7))
  moreover have "verify (identity_log True) = Inr []"
    using inst [of True] by (simp add: identity_log_checks(6,7))
  ultimately show ?thesis
    by (simp add: honest_log_def lying_log_def identity_log_checks(6) soul_text_def)
qed

text \<open>
  C3 as stated fails on this log: its \<open>soul.verify\<close> messages carry the hashes
  H1, H1, H2, H2 and the third one declares \<open>match = true\<close> although its hash changed.
  The claim expects one \<open>INFO\<close> and one \<open>WARN\<close>; \<open>verify\<close> finds nothing.
\<close>

theorem undisclosed_change_unreported:
  "map (\<lambda>m. opt_prop (data m) ''soul_hash'')
     (filter (\<lambda>m. type m = JStr ''soul.verify'') lying_log) =
     [JStr ''sha256:a3f2'', JStr ''sha256:a3f2'', JStr ''sha256:77b1'', JStr ''sha256:77b1'']
   \<and> opt_prop (data (lying_log ! 3)) ''match'' = JBool True
   \<and> verify lying_log = Inr []
   \<and> filter is_info [] = [] \<and> filter is_warn [] = []"
  by (simp add: verify_lying_log)
    (simp add: lying_log_def identity_log_def attestation_def soul_data_def)

section \<open>A first message whose type cannot be rendered\<close>

lemma odd_type_throws:
  "js_to_string odd_type = None" "first_text odd_type = None"
  "odd_type \<noteq> JStr ''agent.create''"
  by (simp_all add: odd_type_def first_text_def)

text \<open>
  C6. The code fails the claim on the log whose only message has the payload type
  \<open>{"toString": 1}\<close>. The first message is not \<open>agent.create\<close>, so \<open>verify\<close>
  builds the issue \<open>FAIL: First message is "..."\<close>; rendering the type inside the
  template string throws a \<open>TypeError\<close>, \<open>verify\<close> returns no issue list and the
  summary is never printed. With a type that can be rendered, such as \<open>action\<close>, the
  issue is produced and the other checks go on.
\<close>

theorem first_type_rendering_throws:
  "odd_first_log \<noteq> [] \<and> type (odd_first_log ! 0) \<noteq> JStr ''agent.create''
   \<and> verify odd_first_log = Inl TypeError
   \<and> audit odd_first_log = Inl TypeError
   \<and> verify headless_log =
       Inr [''FAIL: First message is '' @ [CHR 0x22] @ ''action'' @ [CHR 0x22] @
              '', expected '' @ [CHR 0x22] @ ''agent.create'' @ [CHR 0x22],
            ''FAIL: Sequence gap between 1 and 3'',
            ''FAIL: Timestamp ordering violated at seq 3'']"
proof -
  have v: "verify odd_first_log = Inl TypeError"
    by (simp add: verify_parts first_issues_def odd_first_log_def odd_message_def
        odd_type_throws)
  then have "audit odd_first_log = Inl TypeError"
    by (simp add: audit_def)
  moreover have "odd_first_log \<noteq> [] \<and> type (odd_first_log ! 0) \<noteq> JStr ''agent.create''"
    by (simp add: odd_first_log_def odd_message_def odd_type_def)
  ultimately show ?thesis
    using v by (simp add: verify_headless_log)
qed

text \<open>
  C4. The code fails the claim on the log whose first message, numbered 1, has the
  payload type \<open>{"toString": 1}\<close> and whose second message is numbered 3. The pair is
  a gap, but \<open>verify\<close> throws a \<open>TypeError\<close> while it renders the type of the first
  message, before the loop over the sequence numbers, so no gap issue is produced. The
  same two sequence numbers after a first message of type \<open>agent.create\<close> give the one
  issue that names 1 and 3.
\<close>

theorem gap_lost_when_first_type_throws:
  "seq (odd_gapped_log ! 1) \<noteq> seq (odd_gapped_log ! 0) + 1
   \<and> seq (odd_gapped_log ! 0) = 1 \<and> seq (odd_gapped_log ! 1) = 3
   \<and> verify odd_gapped_log = Inl TypeError
   \<and> verify (odd_gapped_log [0 := (odd_gapped_log ! 0) \<lparr>type := JStr ''agent.create''\<rparr>]) =
       Inr [''FAIL: Sequence gap between 1 and 3'']"
  by (simp add: verify_parts parts_defs odd_gapped_log_def odd_message_def odd_type_throws
      attestation_def gap_text_def)

section \<open>fetchAllMessages\<close>

lemma push_messages_map: "push_messages messages msgs = messages @ map to_message msgs"
  by (induction msgs arbitrary: messages) simp_all

text \<open>
  C8. The code fails the claim on the topic of two messages whose first payload is
  \<open>{"type": "agent.create", "data": {...}, "_parseError": true}\<close> and whose second
  payload is no JSON. One payload cannot be parsed, k = 1. The spread \<open>...content\<close>
  copies the \<open>_parseError\<close> of the first payload into its message, so \<open>verify\<close>
  counts it too: the one \<open>WARN\<close> issue says that 2 messages could not be parsed.
\<close>

theorem parse_warning_counts_marked_payload:
  "filter undecodable marked_topic = [marked_topic ! 1]
   \<and> filter self_marked marked_topic = [marked_topic ! 0]
   \<and> map (\<lambda>m. truthy (parseError m)) (push_messages [] marked_topic) = [True, True]
   \<and> map seq (push_messages [] marked_topic) = [1, 2]
   \<and> verify (push_messages [] marked_topic) =
       Inr [''WARN: 2 message(s) could not be parsed as JSON'']"
  by (simp add: push_messages_map verify_parts parts_defs marked_topic_def to_message_def
      undecodable_def self_marked_def parse_text_def)

section \<open>Timestamps that go back\<close>

text \<open>
  Whenever \<open>verify\<close> returns, its issues \<open>FAIL: Timestamp ordering violated\<close> are
  those of the neighbours whose second \<open>consensusTs\<close> is smaller than the first as a
  string, code unit by code unit. For two timestamps of the mirror node's form with
  equally many characters this is the order of the instants (\<open>instant_order\<close>).
\<close>

lemma regressions_by_string_order:
  assumes "verify messages = Inr issues"
  shows "filter is_regression issues =
           map (\<lambda>(prev, cur). ts_text (seq cur))
             (filter (\<lambda>(prev, cur). consensusTs cur < consensusTs prev)
                (zip messages (tl messages)))"
  using filter_regression_verify [OF assms]
  by (simp add: regression_issues_def adjacent_def)

text \<open>
  C5. The code fails the claim on two logs.
  \<^item> The first message, numbered 1, has the payload type \<open>{"toString": 1}\<close>; the second,
    numbered 2, has a consensus timestamp 100 seconds before the one of the first.
    \<open>verify\<close> throws a \<open>TypeError\<close> while it renders the type of the first message,
    before the loop over the timestamps, so the regression is not reported. After a first
    message of type \<open>agent.create\<close> the same two timestamps give the one issue.
  \<^item> The consensus timestamps are \<open>1000000000.000000000\<close> and then
    \<open>999999999.000000000\<close>, one second earlier. \<open>verify\<close> compares the two strings,
    not the instants, and the second string is not the smaller one: the log verifies
    without any issue.
\<close>

theorem timestamp_regression_unreported:
  "instant (consensusTs (odd_regressed_log ! 0)) = Some 1770991200000000000
   \<and> instant (consensusTs (odd_regressed_log ! 1)) = Some 1770991100000000000
   \<and> verify odd_regressed_log = Inl TypeError
   \<and> verify (odd_regressed_log [0 := (odd_regressed_log ! 0) \<lparr>type := JStr ''agent.create''\<rparr>]) =
       Inr [''FAIL: Timestamp ordering violated at seq 2'']
   \<and> instant (consensusTs (rewound_log ! 0)) = Some 1000000000000000000
   \<and> instant (consensusTs (rewound_log ! 1)) = Some 999999999000000000
   \<and> \<not> consensusTs (rewound_log ! 1) < consensusTs (rewound_log ! 0)
   \<and> verify rewound_log = Inr []"
proof -
  have 1: "instant (consensusTs (odd_regressed_log ! 0)) = Some 1770991200000000000
      \<and> instant (consensusTs (odd_regressed_log ! 1)) = Some 1770991100000000000"
    by (simp add: odd_regressed_log_def odd_message_def attestation_def instant_def
        is_digit_def digit_value_def)
  have 2: "verify odd_regressed_log = Inl TypeError
      \<and> verify (odd_regressed_log
          [0 := (odd_regressed_log ! 0) \<lparr>type := JStr ''agent.create''\<rparr>]) =
        Inr [''FAIL: Timestamp ordering violated at seq 2'']"
    by (simp add: verify_parts parts_defs odd_regressed_log_def odd_message_def
        odd_type_throws attestation_def ts_text_def)
  have 3: "instant (consensusTs (rewound_log ! 0)) = Some 1000000000000000000
      \<and> instant (consensusTs (rewound_log ! 1)) = Some 999999999000000000"
    by (simp add: rewound_log_def attestation_def instant_def is_digit_def digit_value_def)
  have 4: "\<not> consensusTs (rewound_log ! 1) < consensusTs (rewound_log ! 0)
      \<and> verify rewound_log = Inr []"
    by (simp add: verify_parts parts_defs rewound_log_def attestation_def)
  from 1 2 3 4 show ?thesis
    by (simp only: simp_thms)
qed

section \<open>val-soul.js: the match field\<close>

lemma find_soul_hash_found: "find_soul_hash ms = JNull \<or> truthy (find_soul_hash ms)"
  by (induction ms rule: find_soul_hash.induct) (auto simp: js_or_def)

lemma getLastSoulHash_found: "getLastSoulHash env = JNull \<or> truthy (getLastSoulHash env)"
  by (simp add: getLastSoulHash_def find_soul_hash_found
      split: mirror_response.splits option.splits)

lemma soul_match_iff:
  assumes "v = JNull \<or> truthy v"
  shows "soul_match v h = (v = JNull \<or> v = JStr h)"
  using assms by (auto simp: soul_match_def)

text \<open>
  C10. Whenever \<open>main\<close> submits an attestation, with or without the hashes of the
  single files, it is a \<open>soul.verify\<close> whose \<open>data.soul_hash\<close> is the composite hash
  just computed and whose \<open>data.match\<close> is \<open>true\<close> exactly when
  \<open>getLastSoulHash\<close> found no attested hash on the topic (it returned \<open>null\<close>) or
  the hash it found is that composite hash.
\<close>

theorem soul_match_field:
  assumes "main env = Some att"
  shows "opt_prop att ''type'' = JStr ''soul.verify''
         \<and> opt_prop (opt_prop att ''data'') ''soul_hash'' = JStr (soulHash env)
         \<and> opt_prop (opt_prop att ''data'') ''match'' =
             JBool (getLastSoulHash env = JNull \<or> getLastSoulHash env = JStr (soulHash env))"
proof -
  have m: "soul_match (getLastSoulHash env) (soulHash env) =
      (getLastSoulHash env = JNull \<or> getLastSoulHash env = JStr (soulHash env))"
    by (rule soul_match_iff) (rule getLastSoulHash_found)
  from assms show ?thesis
    by (auto simp: main_def Let_def m split: if_splits)
qed

lemma sample_env_main: "main (sample_env attested) =
    Some (sample_attestation (attested = [] \<or> attested = ''sha256:sha256:be kind''))"
  by (simp add: main_def Let_def sample_env_def sample_attestation_def hashed_files_def
      identityFiles_def hashFile_def soulHash_def getLastSoulHash_def soul_match_def js_or_def)

theorem soul_match_field_witness:
  "main (sample_env ''sha256:sha256:be kind'') = Some (sample_attestation True)
   \<and> getLastSoulHash (sample_env ''sha256:sha256:be kind'') =
       JStr (soulHash (sample_env ''sha256:sha256:be kind''))
   \<and> main (sample_env ''sha256:0c1d'') = Some (sample_attestation False)
   \<and> getLastSoulHash (sample_env ''sha256:0c1d'') \<noteq> JNull
   \<and> getLastSoulHash (sample_env ''sha256:0c1d'') \<noteq>
       JStr (soulHash (sample_env ''sha256:0c1d''))
   \<and> main (sample_env '''') = Some (sample_attestation True)
   \<and> getLastSoulHash (sample_env '''') = JNull"
proof -
  have a: "main (sample_env ''sha256:sha256:be kind'') = Some (sample_attestation True)"
    and b: "main (sample_env ''sha256:0c1d'') = Some (sample_attestation False)"
    and c: "main (sample_env '''') = Some (sample_attestation True)"
    by (simp_all add: sample_env_main)
  have n: "getLastSoulHash (sample_env '''') = JNull"
    by (simp add: getLastSoulHash_def sample_env_def js_or_def)
  have h: "getLastSoulHash (sample_env ''sha256:0c1d'') \<noteq> JNull"
    by (simp add: getLastSoulHash_def sample_env_def js_or_def)
  from soul_match_field [OF a]
  have "getLastSoulHash (sample_env ''sha256:sha256:be kind'') = JNull \<or>
      getLastSoulHash (sample_env ''sha256:sha256:be kind'') =
        JStr (soulHash (sample_env ''sha256:sha256:be kind''))"
    by (auto simp: sample_attestation_def)
  moreover have "getLastSoulHash (sample_env ''sha256:sha256:be kind'') \<noteq> JNull"
    by (simp add: getLastSoulHash_def sample_env_def js_or_def)
  ultimately have 1: "getLastSoulHash (sample_env ''sha256:sha256:be kind'') =
      JStr (soulHash (sample_env ''sha256:sha256:be kind''))"
    by blast
  from soul_match_field [OF b]
  have 2: "getLastSoulHash (sample_env ''sha256:0c1d'') \<noteq>
      JStr (soulHash (sample_env ''sha256:0c1d''))"
    by (simp add: sample_attestation_def)
  from a b c n h 1 2 show ?thesis
    by blast
qed

section \<open>The data of the first identity check\<close>

lemma gap_issues_seq:
  "gap_issues ms =
     map (\<lambda>(a, b). gap_text a b) (filter (\<lambda>(a, b). b \<noteq> a + 1) (adjacent (map seq ms)))"
  by (simp add: gap_issues_def adjacent_map filter_map comp_def split_def)

lemma regression_issues_ts:
  "regression_issues ms =
     map (\<lambda>(p, c). ts_text (fst c))
       (filter (\<lambda>(p, c). snd c < snd p) (adjacent (map (\<lambda>m. (seq m, consensusTs m)) ms)))"
  by (simp add: regression_issues_def adjacent_map filter_map comp_def split_def)

lemma first_check_data_unread:
  assumes "\<forall>m \<in> set before. type m \<noteq> JStr ''soul.verify''"
    and "type first = JStr ''soul.verify''"
  shows "verify (before @ first\<lparr>data := d\<rparr> # after) = verify (before @ first # after)"
proof -
  have f: "first_issues (before @ first\<lparr>data := d\<rparr> # after) =
      first_issues (before @ first # after)"
    by (cases before) (simp_all add: first_issues_def)
  have g: "gap_issues (before @ first\<lparr>data := d\<rparr> # after) =
      gap_issues (before @ first # after)"
    by (simp add: gap_issues_seq)
  have r: "regression_issues (before @ first\<lparr>data := d\<rparr> # after) =
      regression_issues (before @ first # after)"
    by (simp add: regression_issues_ts)
  have p: "parse_issues (before @ first\<lparr>data := d\<rparr> # after) =
      parse_issues (before @ first # after)"
    by (simp add: parse_issues_def)
  from assms(1) have "filter (\<lambda>m. type m = JStr ''soul.verify'') before = []"
    by (simp add: filter_empty_conv)
  with assms(2) have s: "soul_issues (before @ first\<lparr>data := d\<rparr> # after) =
      soul_issues (before @ first # after)"
    by (simp add: soul_issues_def)
  from f g r p s show ?thesis
    by (simp add: verify_parts split: option.splits)
qed

text \<open>
  C9. Whenever \<open>verify\<close> returns, its issues \<open>INFO: Soul hash changed at seq n\<close> are
  exactly these: one for every \<open>soul.verify\<close> message, the first one of the log
  excepted, whose \<open>data.match\<close> is \<open>false\<close>; for sequence numbers of magnitude below
  2^53 the issue names the sequence number of its message. So a later \<open>soul.verify\<close>
  message gives one only when its \<open>data.match\<close> is \<open>false\<close>, and the first one gives
  none. Nor does the \<open>data\<close> of the first \<open>soul.verify\<close> message matter to any other
  issue: whatever \<open>match\<close> field or hash it carries, the outcome of \<open>verify\<close> is the
  same. When \<open>verify\<close> throws there is no issue at all.
\<close>

theorem soul_info_from_second_on:
  "(verify messages = Inr issues \<longrightarrow>
      length (filter is_info issues) =
        length (filter (\<lambda>m. opt_prop (data m) ''match'' = JBool False)
                  (tl (filter (\<lambda>m. type m = JStr ''soul.verify'') messages)))
      \<and> ((\<forall>m \<in> set messages. \<bar>seq m\<bar> < 2 ^ 53) \<longrightarrow>
           filter is_info issues =
             map (\<lambda>m. ''INFO: Soul hash changed at seq '' @ show_int (seq m) @
                      '' (identity modified)'')
               (filter (\<lambda>m. opt_prop (data m) ''match'' = JBool False)
                  (tl (filter (\<lambda>m. type m = JStr ''soul.verify'') messages)))))
   \<and> ((\<forall>m \<in> set before. type m \<noteq> JStr ''soul.verify'') \<and> type first = JStr ''soul.verify''
        \<longrightarrow> verify (before @ first\<lparr>data := d\<rparr> # after) = verify (before @ first # after))"
proof (intro conjI impI)
  assume v: "verify messages = Inr issues"
  then have "filter is_info issues = soul_issues messages"
    by (rule filter_info_verify)
  then have t: "filter is_info issues =
      map (\<lambda>m. ''INFO: Soul hash changed at seq '' @ show_int (seq m) @ '' (identity modified)'')
        (filter (\<lambda>m. opt_prop (data m) ''match'' = JBool False)
           (tl (filter (\<lambda>m. type m = JStr ''soul.verify'') messages)))"
    by (simp add: soul_issues_def soul_text_def match_is_false_iff)
  then show "filter is_info issues =
      map (\<lambda>m. ''INFO: Soul hash changed at seq '' @ show_int (seq m) @ '' (identity modified)'')
        (filter (\<lambda>m. opt_prop (data m) ''match'' = JBool False)
           (tl (filter (\<lambda>m. type m = JStr ''soul.verify'') messages)))" .
  from t show "length (filter is_info issues) =
      length (filter (\<lambda>m. opt_prop (data m) ''match'' = JBool False)
                (tl (filter (\<lambda>m. type m = JStr ''soul.verify'') messages)))"
    by simp
next
  assume "(\<forall>m \<in> set before. type m \<noteq> JStr ''soul.verify'') \<and> type first = JStr ''soul.verify''"
  then show "verify (before @ first\<lparr>data := d\<rparr> # after) = verify (before @ first # after)"
    by (simp add: first_check_data_unread)
qed

theorem soul_info_from_second_on_witness:
  "map (\<lambda>m. opt_prop (data m) ''match'')
     (filter (\<lambda>m. type m = JStr ''soul.verify'') honest_log) =
     [JBool True, JBool True, JBool False, JBool True]
   \<and> verify honest_log = Inr [''INFO: Soul hash changed at seq 4 (identity modified)'']
   \<and> filter is_info [''INFO: Soul hash changed at seq 4 (identity modified)''] =
       [''INFO: Soul hash changed at seq 4 (identity modified)'']
   \<and> opt_prop (data (lone_check_log (soul_data ''sha256:77b1'' False) ! 1)) ''match'' =
       JBool False
   \<and> verify (lone_check_log (soul_data ''sha256:77b1'' False)) =
       verify (lone_check_log JUndefined)
   \<and> verify (lone_check_log (soul_data ''sha256:77b1'' False)) = Inr []"
proof -
  have b: "\<forall>m \<in> set honest_log. \<bar>seq m\<bar> < 2 ^ 53"
    by (simp add: honest_log_def identity_log_def attestation_def)
  have m: "map (\<lambda>m. opt_prop (data m) ''match'')
     (filter (\<lambda>m. type m = JStr ''soul.verify'') honest_log) =
     [JBool True, JBool True, JBool False, JBool True]"
    by (simp add: honest_log_def identity_log_def attestation_def soul_data_def)
  from soul_info_from_second_on [of honest_log] verify_honest_log b
  have "filter is_info [''INFO: Soul hash changed at seq 4 (identity modified)''] =
      map (\<lambda>m. ''INFO: Soul hash changed at seq '' @ show_int (seq m) @ '' (identity modified)'')
        (filter (\<lambda>m. opt_prop (data m) ''match'' = JBool False)
           (tl (filter (\<lambda>m. type m = JStr ''soul.verify'') honest_log)))"
    by blast
  then have 1: "filter is_info [''INFO: Soul hash changed at seq 4 (identity modified)''] =
      [''INFO: Soul hash changed at seq 4 (identity modified)'']"
    by (simp add: honest_log_def identity_log_def attestation_def soul_data_def)
  have h: "(\<forall>m \<in> set [attestation 1 ''1770991200.000000000'' ''agent.create'' create_data].
        type m \<noteq> JStr ''soul.verify'')
      \<and> type (attestation 2 ''1770991260.000000000'' ''soul.verify'' JUndefined) =
          JStr ''soul.verify''"
    by (simp add: attestation_def)
  have u: "(attestation 2 ''1770991260.000000000'' ''soul.verify'' JUndefined)
      \<lparr>data := soul_data ''sha256:77b1'' False\<rparr> =
      attestation 2 ''1770991260.000000000'' ''soul.verify'' (soul_data ''sha256:77b1'' False)"
    by (simp add: attestation_def)
  from soul_info_from_second_on
    [of "[]" "[]" "[attestation 1 ''1770991200.000000000'' ''agent.create'' create_data]"
      "attestation 2 ''1770991260.000000000'' ''soul.verify'' JUndefined"
      "soul_data ''sha256:77b1'' False" "[]"] h
  have 2: "verify (lone_check_log (soul_data ''sha256:77b1'' False)) =
      verify (lone_check_log JUndefined)"
    unfolding u lone_check_log_def by simp
  have 3: "verify (lone_check_log JUndefined) = Inr []"
    by (simp add: verify_parts parts_defs lone_check_log_def attestation_def)
  have 4: "opt_prop (data (lone_check_log (soul_data ''sha256:77b1'' False) ! 1)) ''match'' =
      JBool False"
    by (simp add: lone_check_log_def attestation_def soul_data_def)
  from m 1 2 3 4 show ?thesis
    by (simp add: verify_honest_log)
qed

end
